theory Spec2Isabelle
  imports Main
begin

section \<open>Python strings\<close>

text \<open>
  A Python \<open>str\<close> is a sequence of Unicode code points and \<open>len\<close> counts code points, so a
  string is modelled as the list of its code points. The Japanese literals of
  \<open>text_extractor.py\<close> are written by their code points.
\<close>

type_synonym pystr = "nat list"

definition terminator :: nat where
  \<comment> \<open>U+3002, the ideographic full stop the chunker appends after every sentence\<close>
  "terminator = 12290"

definition unknown_str :: pystr where
  \<comment> \<open>U+4E0D U+660E, the "unknown" default\<close>
  "unknown_str = [19981, 26126]"

definition normal_str :: pystr where
  \<comment> \<open>U+666E U+901A, the default intensity\<close>
  "normal_str = [26222, 36890]"

definition one_way_str :: pystr where
  \<comment> \<open>U+4E00 U+65B9 U+5411, the default direction\<close>
  "one_way_str = [19968, 26041, 21521]"

definition py_isspace :: "nat \<Rightarrow> bool" where
  \<comment> \<open>the code points for which \<open>str.isspace\<close> holds; \<open>str.strip()\<close> removes exactly these\<close>
  "py_isspace c \<longleftrightarrow>
     (9 \<le> c \<and> c \<le> 13) \<or> (28 \<le> c \<and> c \<le> 32) \<or> c = 133 \<or> c = 160 \<or> c = 5760 \<or>
     (8192 \<le> c \<and> c \<le> 8202) \<or> c = 8232 \<or> c = 8233 \<or> c = 8239 \<or> c = 8287 \<or> c = 12288"

definition py_strip :: "pystr \<Rightarrow> pystr" where
  \<comment> \<open>\<open>s.strip()\<close>: leading and trailing whitespace removed\<close>
  "py_strip s = rev (dropWhile py_isspace (rev (dropWhile py_isspace s)))"

section \<open>The chunker\<close>

definition is_sentence_end :: "nat \<Rightarrow> bool" where
  \<comment> \<open>the character class of the split pattern: U+3002, U+FF01, U+FF1F and line feed\<close>
  "is_sentence_end c \<longleftrightarrow> c = 12290 \<or> c = 65281 \<or> c = 65311 \<or> c = 10"

text \<open>
  \<open>re.split\<close> on a one-character class: the text is cut at every delimiter, the delimiters are
  dropped and empty pieces are kept, so \<open>n\<close> delimiters give \<open>n + 1\<close> pieces.
\<close>

fun re_split :: "pystr \<Rightarrow> pystr list" where
  "re_split [] = [[]]"
| "re_split (c # cs) =
     (if is_sentence_end c then [] # re_split cs
      else (case re_split cs of
              [] \<Rightarrow> [[c]]
            | s # ss \<Rightarrow> (c # s) # ss))"

text \<open>
  The \<open>for sentence in sentences\<close> loop of \<open>_chunk_text\<close>, with the two variables it updates:
  the list \<open>chunks\<close> and the string \<open>current_chunk\<close>.
\<close>

fun chunk_text_loop :: "int \<Rightarrow> pystr list \<Rightarrow> pystr \<Rightarrow> pystr list \<Rightarrow> pystr list \<times> pystr" where
  "chunk_text_loop max_size chunks current_chunk [] = (chunks, current_chunk)"
| "chunk_text_loop max_size chunks current_chunk (sentence # rest) =
     (if int (length current_chunk) + int (length sentence) \<le> max_size
      then chunk_text_loop max_size chunks (current_chunk @ sentence @ [terminator]) rest
      else chunk_text_loop max_size
             (if current_chunk \<noteq> [] then chunks @ [py_strip current_chunk] else chunks)
             (sentence @ [terminator]) rest)"

definition chunk_text :: "pystr \<Rightarrow> int \<Rightarrow> pystr list" where
  "chunk_text text max_size =
     (case chunk_text_loop max_size [] [] (re_split text) of
        (chunks, current_chunk) \<Rightarrow>
          if current_chunk \<noteq> [] then chunks @ [py_strip current_chunk] else chunks)"

section \<open>Records\<close>

text \<open>
  The three dataclasses, with the field types they declare: \<open>str\<close> fields are strings,
  \<open>Optional[str]\<close> fields are \<open>None\<close> or a string.
\<close>

record Character =
  name :: pystr
  gender :: pystr
  age :: "pystr option"
  occupation :: "pystr option"
  appearance :: "pystr option"
  personality :: "pystr option"

record Emotion =
  emotion_type :: pystr
  subject :: pystr
  target :: "pystr option"
  intensity :: pystr
  quote :: pystr

record Relationship =
  person1 :: pystr
  person2 :: pystr
  relation_type :: pystr
  direction :: pystr
  evidence :: pystr

text \<open>
  An extraction that carries an attribute dictionary: the extracted span and the
  dictionary. Attribute values are strings, the type of the dataclass fields they are
  stored in; a key the dictionary does not hold is \<open>None\<close> in the map.
\<close>

record extraction =
  extraction_text :: "pystr option"
  attributes :: "string \<Rightarrow> pystr option"

text \<open>
  One element of \<open>result.extractions\<close> as the client returns it. Its \<open>attributes\<close> is a
  dictionary or \<open>None\<close>, which is the default of the library's class; in the second case
  only the span is left.
\<close>

datatype returned_extraction =
    Attributed extraction
  | Unattributed "pystr option"

definition attrs_get :: "(string \<Rightarrow> pystr option) \<Rightarrow> string \<Rightarrow> pystr \<Rightarrow> pystr" where
  \<comment> \<open>\<open>attrs.get(key, dflt)\<close>\<close>
  "attrs_get attrs key dflt = (case attrs key of None \<Rightarrow> dflt | Some v \<Rightarrow> v)"

definition py_or :: "pystr option \<Rightarrow> pystr \<Rightarrow> pystr" where
  \<comment> \<open>\<open>a or b\<close> on strings: \<open>None\<close> and the empty string are falsy\<close>
  "py_or a b = (case a of None \<Rightarrow> b | Some s \<Rightarrow> if s = [] then b else s)"

definition make_character :: "extraction \<Rightarrow> Character" where
  "make_character e =
     (let attrs = attributes e in
      \<lparr>name = py_or (extraction_text e) (attrs_get attrs ''name'' unknown_str),
       gender = attrs_get attrs ''gender'' unknown_str,
       age = attrs ''age'',
       occupation = attrs ''occupation'',
       appearance = attrs ''appearance'',
       personality = attrs ''personality''\<rparr>)"

definition make_emotion :: "extraction \<Rightarrow> Emotion" where
  "make_emotion e =
     (let attrs = attributes e in
      \<lparr>emotion_type = attrs_get attrs ''emotion_type'' unknown_str,
       subject = attrs_get attrs ''subject'' unknown_str,
       target = attrs ''target'',
       intensity = attrs_get attrs ''intensity'' normal_str,
       quote = py_or (extraction_text e) (attrs_get attrs ''quote'' [])\<rparr>)"

definition make_relationship :: "extraction \<Rightarrow> Relationship" where
  "make_relationship e =
     (let attrs = attributes e in
      \<lparr>person1 = attrs_get attrs ''person1'' unknown_str,
       person2 = attrs_get attrs ''person2'' unknown_str,
       relation_type = attrs_get attrs ''relation_type'' unknown_str,
       direction = attrs_get attrs ''direction'' one_way_str,
       evidence = py_or (extraction_text e) (attrs_get attrs ''evidence'' [])\<rparr>)"

section \<open>The extraction client and its effects\<close>

text \<open>
  \<open>lx.extract\<close> is an external call. It returns a result or raises; \<open>result.extractions\<close>
  is a list of extractions or \<open>None\<close>. The
  exceptions the code tells apart are \<open>json.JSONDecodeError\<close> and every other \<open>Exception\<close>,
  each with its message \<open>str(e)\<close>. The prompt and the examples of a call are fixed by the
  record kind. What the code does to the outside is kept as a trace of events: the calls
  of the client and the calls of \<open>time.sleep\<close>. A client is any function of the trace so
  far and the request, so it may answer the same request differently the second time.
\<close>

datatype py_exception = JSONDecodeError string | OtherException string

fun str_of :: "py_exception \<Rightarrow> string" where
  "str_of (JSONDecodeError msg) = msg"
| "str_of (OtherException msg) = msg"

datatype kind = CharacterK | EmotionK | RelationshipK

datatype request =
    Extract kind pystr
  | ExtractScaling kind pystr int int int

datatype event = Call request | Sleep nat

datatype outcome = Returns "returned_extraction list option" | Raises py_exception

type_synonym client = "event list \<Rightarrow> request \<Rightarrow> outcome"

fun str_contains :: "string \<Rightarrow> string \<Rightarrow> bool" where
  \<comment> \<open>\<open>needle in hay\<close>\<close>
  "str_contains needle [] = (needle = [])"
| "str_contains needle (c # cs) =
     (take (length needle) (c # cs) = needle \<or> str_contains needle cs)"

definition is_rate_limit :: "py_exception \<Rightarrow> bool" where
  "is_rate_limit e \<longleftrightarrow>
     str_contains ''429'' (str_of e) \<or> str_contains ''RESOURCE_EXHAUSTED'' (str_of e)"

section \<open>Building the records\<close>

text \<open>
  The loop \<open>for extraction in result.extractions\<close>, which all extraction methods run
  inside their \<open>try\<close> block. Every constructor call reads \<open>attrs.get\<close>, so an element whose
  \<open>attributes\<close> is \<open>None\<close> raises \<open>AttributeError\<close>, and \<open>result.extractions = None\<close> raises
  \<open>TypeError\<close> when the loop starts. Both are exceptions other than the JSON decode error
  (the quotation marks of their messages are left out).
\<close>

definition attribute_error :: py_exception where
  "attribute_error = OtherException ''NoneType object has no attribute get''"

definition type_error :: py_exception where
  "type_error = OtherException ''NoneType object is not iterable''"

fun build_loop ::
  "(extraction \<Rightarrow> 'a) \<Rightarrow> 'a list \<Rightarrow> returned_extraction list \<Rightarrow> py_exception + 'a list" where
  "build_loop build items [] = Inr items"
| "build_loop build items (Attributed e # rest) = build_loop build (items @ [build e]) rest"
| "build_loop build items (Unattributed span # rest) = Inl attribute_error"

definition build_records ::
  "(extraction \<Rightarrow> 'a) \<Rightarrow> returned_extraction list option \<Rightarrow> py_exception + 'a list" where
  "build_records build extractions =
     (case extractions of
        None \<Rightarrow> Inl type_error
      | Some elements \<Rightarrow> build_loop build [] elements)"

text \<open>
  The body of the \<open>try\<close> block: the call of the client and the loop that builds the
  records. Its value is the list built or the exception raised, by the client or by the
  loop.
\<close>

definition try_extract ::
  "(extraction \<Rightarrow> 'a) \<Rightarrow> client \<Rightarrow> event list \<Rightarrow> request \<Rightarrow> py_exception + 'a list" where
  "try_extract build client tr request =
     (case client tr request of
        Returns result \<Rightarrow> build_records build result
      | Raises e \<Rightarrow> Inl e)"

section \<open>Safe extraction with narrowing\<close>

text \<open>
  The loop \<open>for chunk in smaller_chunks[:3]\<close> of the three \<open>_safe_extract_*\<close> methods: the
  attempt on a sub-chunk extends the accumulated list, an attempt that raises is skipped
  (\<open>except: continue\<close>). An attempt that does not return (\<open>None\<close>) leaves the loop without
  a result.
\<close>

fun retry_loop ::
  "(event list \<Rightarrow> pystr \<Rightarrow> ((py_exception + 'a list) \<times> event list) option) \<Rightarrow>
   'a list \<Rightarrow> event list \<Rightarrow> pystr list \<Rightarrow> ('a list \<times> event list) option" where
  "retry_loop attempt acc tr [] = Some (acc, tr)"
| "retry_loop attempt acc tr (chunk # rest) =
     (case attempt tr chunk of
        None \<Rightarrow> None
      | Some (Inr chunk_items, tr') \<Rightarrow> retry_loop attempt (acc @ chunk_items) tr' rest
      | Some (Inl e, tr') \<Rightarrow> retry_loop attempt acc tr' rest)"

text \<open>
  The methods call themselves on the sub-chunks, and nothing in the code bounds the depth
  of that recursion. The first argument is the depth still allowed: \<open>None\<close> is a call that
  has not returned within it. A result is \<open>Inr\<close> the returned list or \<open>Inl\<close> the exception
  that leaves the method, with the trace after the call.
\<close>

primrec safe_extract_characters ::
  "nat \<Rightarrow> client \<Rightarrow> event list \<Rightarrow> pystr \<Rightarrow> ((py_exception + Character list) \<times> event list) option" where
  "safe_extract_characters 0 client tr text = None"
| "safe_extract_characters (Suc fuel) client tr text =
     (case try_extract make_character client tr (Extract CharacterK text) of
        Inr characters \<Rightarrow> Some (Inr characters, tr @ [Call (Extract CharacterK text)])
      | Inl (JSONDecodeError msg) \<Rightarrow>
          if length text > 1000 then
            (case retry_loop (safe_extract_characters fuel client) []
                    (tr @ [Call (Extract CharacterK text)]) (take 3 (chunk_text text 1000)) of
               None \<Rightarrow> None
             | Some (all_chars, tr') \<Rightarrow> Some (Inr all_chars, tr'))
          else Some (Inr [], tr @ [Call (Extract CharacterK text)])
      | Inl (OtherException msg) \<Rightarrow> Some (Inr [], tr @ [Call (Extract CharacterK text)]))"

primrec safe_extract_emotions ::
  "nat \<Rightarrow> client \<Rightarrow> event list \<Rightarrow> pystr \<Rightarrow> ((py_exception + Emotion list) \<times> event list) option" where
  "safe_extract_emotions 0 client tr text = None"
| "safe_extract_emotions (Suc fuel) client tr text =
     (case try_extract make_emotion client tr (Extract EmotionK text) of
        Inr emotions \<Rightarrow> Some (Inr emotions, tr @ [Call (Extract EmotionK text)])
      | Inl (JSONDecodeError msg) \<Rightarrow>
          if length text > 1000 then
            (case retry_loop (safe_extract_emotions fuel client) []
                    (tr @ [Call (Extract EmotionK text)]) (take 3 (chunk_text text 1000)) of
               None \<Rightarrow> None
             | Some (all_emotions, tr') \<Rightarrow> Some (Inr all_emotions, tr'))
          else Some (Inr [], tr @ [Call (Extract EmotionK text)])
      | Inl (OtherException msg) \<Rightarrow> Some (Inr [], tr @ [Call (Extract EmotionK text)]))"

primrec safe_extract_relationships ::
  "nat \<Rightarrow> client \<Rightarrow> event list \<Rightarrow> pystr \<Rightarrow> ((py_exception + Relationship list) \<times> event list) option" where
  "safe_extract_relationships 0 client tr text = None"
| "safe_extract_relationships (Suc fuel) client tr text =
     (case try_extract make_relationship client tr (Extract RelationshipK text) of
        Inr relationships \<Rightarrow> Some (Inr relationships, tr @ [Call (Extract RelationshipK text)])
      | Inl (JSONDecodeError msg) \<Rightarrow>
          if length text > 1000 then
            (case retry_loop (safe_extract_relationships fuel client) []
                    (tr @ [Call (Extract RelationshipK text)]) (take 3 (chunk_text text 1000)) of
               None \<Rightarrow> None
             | Some (all_rels, tr') \<Rightarrow> Some (Inr all_rels, tr'))
          else Some (Inr [], tr @ [Call (Extract RelationshipK text)])
      | Inl (OtherException msg) \<Rightarrow> Some (Inr [], tr @ [Call (Extract RelationshipK text)]))"

section \<open>Deduplication\<close>

definition normalized_name :: "(pystr \<Rightarrow> pystr) \<Rightarrow> Character \<Rightarrow> pystr" where
  \<comment> \<open>\<open>char.name.replace(" ", "").replace(U+3000, "").lower()\<close>; the Unicode table of
      \<open>str.lower\<close> is the parameter \<open>lower\<close>\<close>
  "normalized_name lower char =
     lower (filter (\<lambda>c. c \<noteq> 12288) (filter (\<lambda>c. c \<noteq> 32) (name char)))"

fun deduplicate_characters_loop ::
  "(pystr \<Rightarrow> pystr) \<Rightarrow> pystr set \<Rightarrow> Character list \<Rightarrow> Character list \<Rightarrow> Character list" where
  "deduplicate_characters_loop lower seen_names unique_chars [] = unique_chars"
| "deduplicate_characters_loop lower seen_names unique_chars (char # rest) =
     (if normalized_name lower char \<notin> seen_names
      then deduplicate_characters_loop lower (insert (normalized_name lower char) seen_names)
             (unique_chars @ [char]) rest
      else deduplicate_characters_loop lower seen_names unique_chars rest)"

definition deduplicate_characters :: "(pystr \<Rightarrow> pystr) \<Rightarrow> Character list \<Rightarrow> Character list" where
  "deduplicate_characters lower chars = deduplicate_characters_loop lower {} [] chars"

definition rel_key :: "Relationship \<Rightarrow> pystr" where
  \<comment> \<open>the f-string: the three fields joined by underscores (code point 95)\<close>
  "rel_key rel = person1 rel @ [95] @ person2 rel @ [95] @ relation_type rel"

fun deduplicate_relationships_loop ::
  "pystr set \<Rightarrow> Relationship list \<Rightarrow> Relationship list \<Rightarrow> Relationship list" where
  "deduplicate_relationships_loop seen_rels unique_rels [] = unique_rels"
| "deduplicate_relationships_loop seen_rels unique_rels (rel # rest) =
     (if rel_key rel \<notin> seen_rels
      then deduplicate_relationships_loop (insert (rel_key rel) seen_rels) (unique_rels @ [rel]) rest
      else deduplicate_relationships_loop seen_rels unique_rels rest)"

definition deduplicate_relationships :: "Relationship list \<Rightarrow> Relationship list" where
  "deduplicate_relationships rels = deduplicate_relationships_loop {} [] rels"

section \<open>The orchestrator\<close>

record results =
  characters :: "Character list"
  emotions :: "Emotion list"
  relationships :: "Relationship list"

text \<open>
  The dictionary display with the three \<open>_safe_extract_*\<close> calls, which \<open>extract_all\<close>
  evaluates in three places: the calls run in the order written, and an exception of one
  of them leaves the display before the later calls.
\<close>

definition safe_extract_results ::
  "nat \<Rightarrow> client \<Rightarrow> event list \<Rightarrow> pystr \<Rightarrow> ((py_exception + results) \<times> event list) option" where
  "safe_extract_results fuel client tr text =
     (case safe_extract_characters fuel client tr text of
        None \<Rightarrow> None
      | Some (Inl e, tr1) \<Rightarrow> Some (Inl e, tr1)
      | Some (Inr cs, tr1) \<Rightarrow>
          (case safe_extract_emotions fuel client tr1 text of
             None \<Rightarrow> None
           | Some (Inl e, tr2) \<Rightarrow> Some (Inl e, tr2)
           | Some (Inr es, tr2) \<Rightarrow>
               (case safe_extract_relationships fuel client tr2 text of
                  None \<Rightarrow> None
                | Some (Inl e, tr3) \<Rightarrow> Some (Inl e, tr3)
                | Some (Inr rs, tr3) \<Rightarrow>
                    Some (Inr \<lparr>characters = cs, emotions = es, relationships = rs\<rparr>, tr3))))"

definition extend_results :: "results \<Rightarrow> results \<Rightarrow> results" where
  "extend_results acc chunk_results =
     \<lparr>characters = characters acc @ characters chunk_results,
      emotions = emotions acc @ emotions chunk_results,
      relationships = relationships acc @ relationships chunk_results\<rparr>"

text \<open>
  \<open>_extract_with_scaling\<close>: one call of the client with the scaling parameters, and the
  records built from its result; an exception of the call or of the building is printed
  and raised again. The branch on \<open>extraction_type\<close> only chooses the dataclass to
  construct, which is the argument \<open>build\<close> here.
\<close>

definition extract_with_scaling ::
  "(extraction \<Rightarrow> 'a) \<Rightarrow> client \<Rightarrow> event list \<Rightarrow> pystr \<Rightarrow> kind \<Rightarrow> int \<Rightarrow> int \<Rightarrow> int \<Rightarrow>
   (py_exception + 'a list) \<times> event list" where
  "extract_with_scaling build client tr text extraction_type extraction_passes max_workers max_char_buffer =
     (let request = ExtractScaling extraction_type text extraction_passes max_workers max_char_buffer
      in case try_extract build client tr request of
           Inr items \<Rightarrow> (Inr items, tr @ [Call request])
         | Inl e \<Rightarrow> (Inl e, tr @ [Call request]))"

definition scaling_results ::
  "client \<Rightarrow> event list \<Rightarrow> pystr \<Rightarrow> int \<Rightarrow> int \<Rightarrow> int \<Rightarrow> (py_exception + results) \<times> event list" where
  "scaling_results client tr text extraction_passes max_workers max_char_buffer =
     (case extract_with_scaling make_character client tr text CharacterK
             extraction_passes max_workers max_char_buffer of
        (Inl e, tr1) \<Rightarrow> (Inl e, tr1)
      | (Inr cs, tr1) \<Rightarrow>
          (case extract_with_scaling make_emotion client tr1 text EmotionK
                  extraction_passes max_workers max_char_buffer of
             (Inl e, tr2) \<Rightarrow> (Inl e, tr2)
           | (Inr es, tr2) \<Rightarrow>
               (case extract_with_scaling make_relationship client tr2 text RelationshipK
                       extraction_passes max_workers max_char_buffer of
                  (Inl e, tr3) \<Rightarrow> (Inl e, tr3)
                | (Inr rs, tr3) \<Rightarrow>
                    (Inr \<lparr>characters = cs, emotions = es, relationships = rs\<rparr>, tr3))))"

text \<open>
  The loop \<open>for i, chunk in enumerate(chunks, 1)\<close>: \<open>n\<close> is \<open>len(chunks)\<close>, \<open>acc\<close> holds the
  three accumulated lists, \<open>i\<close> is the number of the chunk at the head of the list.
\<close>

fun process_chunks ::
  "nat \<Rightarrow> client \<Rightarrow> nat \<Rightarrow> results \<Rightarrow> event list \<Rightarrow> nat \<Rightarrow> pystr list \<Rightarrow>
   (results \<times> event list) option" where
  "process_chunks fuel client n acc tr i [] = Some (acc, tr)"
| "process_chunks fuel client n acc tr i (chunk # rest) =
     (case safe_extract_results fuel client tr chunk of
        None \<Rightarrow> None
      | Some (Inr chunk_results, tr1) \<Rightarrow>
          process_chunks fuel client n (extend_results acc chunk_results)
            (if i < n then tr1 @ [Sleep 2] else tr1) (Suc i) rest
      | Some (Inl e, tr1) \<Rightarrow>
          if is_rate_limit e then
            (case safe_extract_results fuel client (tr1 @ [Sleep 60]) chunk of
               None \<Rightarrow> None
             | Some (Inr chunk_results, tr2) \<Rightarrow>
                 process_chunks fuel client n (extend_results acc chunk_results) tr2 (Suc i) rest
             | Some (Inl retry_e, tr2) \<Rightarrow> process_chunks fuel client n acc tr2 (Suc i) rest)
          else process_chunks fuel client n acc tr1 (Suc i) rest)"

text \<open>
  The chunked branch of \<open>extract_all\<close>: the text is cut into chunks, the loop runs over
  them, and characters and relationships are deduplicated.
\<close>

definition chunked_extraction ::
  "(pystr \<Rightarrow> pystr) \<Rightarrow> nat \<Rightarrow> client \<Rightarrow> event list \<Rightarrow> pystr \<Rightarrow> int \<Rightarrow>
   ((py_exception + results) \<times> event list) option" where
  "chunked_extraction lower fuel client tr text max_chunk_size =
     (let chunks = chunk_text text max_chunk_size in
      case process_chunks fuel client (length chunks)
             \<lparr>characters = [], emotions = [], relationships = []\<rparr> tr 1 chunks of
        None \<Rightarrow> None
      | Some (acc, tr1) \<Rightarrow>
          Some (Inr \<lparr>characters = deduplicate_characters lower (characters acc),
                     emotions = emotions acc,
                     relationships = deduplicate_relationships (relationships acc)\<rparr>, tr1))"

text \<open>
  \<open>extract_all\<close> after its first \<open>if\<close>: chunked extraction for a text longer than
  \<open>max_chunk_size\<close>, the three direct calls otherwise.
\<close>

definition extract_all_unscaled ::
  "(pystr \<Rightarrow> pystr) \<Rightarrow> nat \<Rightarrow> client \<Rightarrow> event list \<Rightarrow> pystr \<Rightarrow> int \<Rightarrow>
   ((py_exception + results) \<times> event list) option" where
  "extract_all_unscaled lower fuel client tr text max_chunk_size =
     (if max_chunk_size < int (length text)
      then chunked_extraction lower fuel client tr text max_chunk_size
      else safe_extract_results fuel client tr text)"

text \<open>
  \<open>extract_all\<close>: with scaling enabled and a text longer than \<open>max_chunk_size\<close> the three
  scaling calls come first and their results are returned; an exception of one of them is
  caught and the method goes on as without scaling.
\<close>

definition extract_all ::
  "(pystr \<Rightarrow> pystr) \<Rightarrow> nat \<Rightarrow> client \<Rightarrow> event list \<Rightarrow> pystr \<Rightarrow> int \<Rightarrow> bool \<Rightarrow> int \<Rightarrow> int \<Rightarrow> int \<Rightarrow>
   ((py_exception + results) \<times> event list) option" where
  "extract_all lower fuel client tr text max_chunk_size use_scaling
               extraction_passes max_workers max_char_buffer =
     (if use_scaling \<and> max_chunk_size < int (length text) then
        (case scaling_results client tr text extraction_passes max_workers max_char_buffer of
           (Inr scaled, tr1) \<Rightarrow> Some (Inr scaled, tr1)
         | (Inl e, tr1) \<Rightarrow> extract_all_unscaled lower fuel client tr1 text max_chunk_size)
      else extract_all_unscaled lower fuel client tr text max_chunk_size)"

section \<open>Notions used to state the properties\<close>

definition join_sentences :: "pystr list \<Rightarrow> pystr" where
  \<comment> \<open>the sentences of a group, each followed by the terminator\<close>
  "join_sentences g = concat (map (\<lambda>s. s @ [terminator]) g)"

text \<open>
  What the narrowing is said to return: the results of the attempts on the sub-chunks
  that succeed, concatenated in order; an attempt that raises contributes nothing.
\<close>

fun concat_successes ::
  "(event list \<Rightarrow> pystr \<Rightarrow> ((py_exception + 'a list) \<times> event list) option) \<Rightarrow>
   event list \<Rightarrow> pystr list \<Rightarrow> ((py_exception + 'a list) \<times> event list) option" where
  "concat_successes attempt tr [] = Some (Inr [], tr)"
| "concat_successes attempt tr (chunk # rest) =
     (case attempt tr chunk of
        None \<Rightarrow> None
      | Some (r, tr1) \<Rightarrow>
          (case concat_successes attempt tr1 rest of
             Some (Inr items, tr2) \<Rightarrow> Some (Inr ((case r of Inr xs \<Rightarrow> xs | Inl e \<Rightarrow> []) @ items), tr2)
           | _ \<Rightarrow> None))"

text \<open>
  Both deduplication methods run the same loop, over their own key function; the
  properties of both are proved on this common form.
\<close>

fun dedup_loop :: "('a \<Rightarrow> 'k) \<Rightarrow> 'k set \<Rightarrow> 'a list \<Rightarrow> 'a list \<Rightarrow> 'a list" where
  "dedup_loop key seen unique [] = unique"
| "dedup_loop key seen unique (x # rest) =
     (if key x \<notin> seen then dedup_loop key (insert (key x) seen) (unique @ [x]) rest
      else dedup_loop key seen unique rest)"

section \<open>Example inputs\<close>

definition example_extraction :: extraction where
  \<comment> \<open>a response element with the span \<open>a\<close> and no attribute at all\<close>
  "example_extraction = \<lparr>extraction_text = Some [97], attributes = (\<lambda>key. None)\<rparr>"

definition example_character :: "pystr \<Rightarrow> Character" where
  "example_character n =
     \<lparr>name = n, gender = unknown_str, age = None, occupation = None, appearance = None,
      personality = None\<rparr>"

definition example_relationship :: "pystr \<Rightarrow> pystr \<Rightarrow> pystr \<Rightarrow> pystr \<Rightarrow> Relationship" where
  "example_relationship p1 p2 rt ev =
     \<lparr>person1 = p1, person2 = p2, relation_type = rt, direction = one_way_str, evidence = ev\<rparr>"

definition example_result :: "returned_extraction list option" where
  \<comment> \<open>a result with the one example element\<close>
  "example_result = Some [Attributed example_extraction]"

definition always_returns :: client where
  \<comment> \<open>a client that answers every request with the example result\<close>
  "always_returns tr request = Returns example_result"

definition always_malformed :: client where
  \<comment> \<open>a client whose every response is unparseable\<close>
  "always_malformed tr request = Raises (JSONDecodeError ''Expecting value'')"

definition malformed_first :: client where
  \<comment> \<open>a client whose first response is unparseable and whose later responses are fine\<close>
  "malformed_first tr request =
     (if tr = [] then Raises (JSONDecodeError ''Expecting value'')
      else Returns example_result)"

definition scaling_fails_from :: "nat \<Rightarrow> client" where
  \<comment> \<open>a client that answers every plain request, and a scaling request only when fewer
      than \<open>n\<close> calls were made before it\<close>
  "scaling_fails_from n tr request =
     (case request of
        Extract k text \<Rightarrow> Returns example_result
      | ExtractScaling k text passes workers buffer \<Rightarrow>
          if length tr < n then Returns example_result
          else Raises (OtherException ''scaling failed''))"

definition scaling_unattributed :: client where
  \<comment> \<open>a client that answers every scaling request with an element whose attributes is
      \<open>None\<close>, and every plain request with the example result\<close>
  "scaling_unattributed tr request =
     (case request of
        Extract k text \<Rightarrow> Returns example_result
      | ExtractScaling k text passes workers buffer \<Rightarrow> Returns (Some [Unattributed (Some [97])]))"

definition four_sentences :: pystr where
  \<comment> \<open>four sentences of 600 characters each, 2403 characters in all\<close>
  "four_sentences =
     replicate 600 97 @ terminator # replicate 600 98 @ terminator # replicate 600 99 @ terminator #
     replicate 600 100"

text \<open>The text a request is about, and the text of a call in the trace.\<close>

fun request_text :: "request \<Rightarrow> pystr" where
  "request_text (Extract k t) = t"
| "request_text (ExtractScaling k t passes workers buffer) = t"

fun called_text :: "event \<Rightarrow> pystr option" where
  "called_text (Call request) = Some (request_text request)"
| "called_text (Sleep seconds) = None"

definition rate_limited_first_call :: client where
  \<comment> \<open>a client that answers the first call on a text with a rate-limit error and every
      later call on that text with the example result\<close>
  "rate_limited_first_call tr request =
     (if Some (request_text request) \<in> set (map called_text tr) then Returns example_result
      else Raises (OtherException ''429 RESOURCE_EXHAUSTED''))"

section \<open>Properties of the chunker\<close>

lemma not_space_terminator: "\<not> py_isspace terminator"
  by (simp add: py_isspace_def terminator_def)

lemma py_strip_terminated: "py_strip (s @ [terminator]) = dropWhile py_isspace s @ [terminator]"
  by (simp add: py_strip_def dropWhile_append not_space_terminator)

lemma join_sentences_Nil_iff: "join_sentences g = [] \<longleftrightarrow> g = []"
  by (cases g) (simp_all add: join_sentences_def)

lemma join_sentences_snoc: "join_sentences (g @ [s]) = join_sentences g @ s @ [terminator]"
  by (simp add: join_sentences_def)

lemma chunk_text_loop_groups:
  assumes "chunk_text_loop m (map (\<lambda>g. py_strip (join_sentences g)) gs) (join_sentences g) rest = (chunks', cur')"
    and "[] \<notin> set gs"
  shows "\<exists>gs' g'. chunks' = map (\<lambda>g. py_strip (join_sentences g)) gs' \<and> cur' = join_sentences g'
           \<and> concat gs' @ g' = concat gs @ g @ rest \<and> [] \<notin> set gs'"
  using assms
proof (induction rest arbitrary: gs g)
  case Nil
  then show ?case by auto
next
  case (Cons s rest)
  show ?case
  proof (cases "int (length (join_sentences g)) + int (length s) \<le> m")
    case True
    with Cons.prems have "chunk_text_loop m (map (\<lambda>g. py_strip (join_sentences g)) gs) (join_sentences (g @ [s])) rest = (chunks', cur')"
      by (simp add: join_sentences_snoc)
    from Cons.IH[OF this Cons.prems(2)] show ?thesis by simp
  next
    case False
    show ?thesis
    proof (cases "g = []")
      case True
      with False Cons.prems have "chunk_text_loop m (map (\<lambda>g. py_strip (join_sentences g)) gs) (join_sentences [s]) rest = (chunks', cur')"
        by (simp add: join_sentences_def)
      from Cons.IH[OF this Cons.prems(2)] True show ?thesis by simp
    next
      case nonempty: False
      with False Cons.prems have "chunk_text_loop m (map (\<lambda>g. py_strip (join_sentences g)) (gs @ [g])) (join_sentences [s]) rest = (chunks', cur')"
        by (simp add: join_sentences_def)
      moreover have "[] \<notin> set (gs @ [g])" using nonempty Cons.prems(2) by simp
      ultimately show ?thesis using Cons.IH[of "gs @ [g]" "[s]"] by simp
    qed
  qed
qed

lemma chunk_text_groups:
  "\<exists>gs. chunk_text text m = map (\<lambda>g. py_strip (join_sentences g)) gs \<and> concat gs = re_split text \<and> [] \<notin> set gs"
proof -
  obtain chunks' cur' where l: "chunk_text_loop m [] [] (re_split text) = (chunks', cur')"
    by (cases "chunk_text_loop m [] [] (re_split text)")
  then have "chunk_text_loop m (map (\<lambda>g. py_strip (join_sentences g)) []) (join_sentences []) (re_split text) = (chunks', cur')"
    by (simp add: join_sentences_def)
  from chunk_text_loop_groups[OF this] obtain gs' g' where
    g: "chunks' = map (\<lambda>g. py_strip (join_sentences g)) gs'" "cur' = join_sentences g'"
       "concat gs' @ g' = re_split text" "[] \<notin> set gs'"
    by auto
  show ?thesis
  proof (cases "g' = []")
    case True
    then show ?thesis using l g by (intro exI[of _ gs']) (simp add: chunk_text_def join_sentences_def)
  next
    case False
    then have "cur' \<noteq> []" using g(2) by (simp add: join_sentences_Nil_iff)
    then show ?thesis using l g False by (intro exI[of _ "gs' @ [g']"]) (simp add: chunk_text_def)
  qed
qed


lemma re_split_not_Nil: "re_split text \<noteq> []"
  by (induction "text") (auto split: list.splits)

lemma re_split_no_delims_all: "\<forall>s\<in>set (re_split text). \<forall>c\<in>set s. \<not> is_sentence_end c"
proof (induction "text")
  case Nil
  then show ?case by simp
next
  case (Cons a u)
  show ?case
  proof (cases "re_split u")
    case Nil
    then show ?thesis by (simp add: re_split_not_Nil)
  next
    case (Cons s ss)
    then show ?thesis using Cons.IH by auto
  qed
qed

lemma re_split_no_delims: "s \<in> set (re_split text) \<Longrightarrow> c \<in> set s \<Longrightarrow> \<not> is_sentence_end c"
  using re_split_no_delims_all by blast

lemma re_split_plain: "\<forall>c\<in>set s. \<not> is_sentence_end c \<Longrightarrow> re_split s = [s]"
  by (induction s) auto

lemma re_split_append_delim:
  "\<forall>c\<in>set s. \<not> is_sentence_end c \<Longrightarrow> is_sentence_end d \<Longrightarrow> re_split (s @ d # rest) = s # re_split rest"
  by (induction s) auto

lemma is_sentence_end_terminator: "is_sentence_end terminator"
  by (simp add: is_sentence_end_def terminator_def)

lemma re_split_join:
  "\<forall>s\<in>set ss. \<forall>c\<in>set s. \<not> is_sentence_end c \<Longrightarrow> re_split (join_sentences ss) = ss @ [[]]"
proof (induction ss)
  case Nil
  then show ?case by (simp add: join_sentences_def)
next
  case (Cons s ss)
  have "join_sentences (s # ss) = s @ terminator # join_sentences ss"
    by (simp add: join_sentences_def)
  then show ?case using Cons
    by (simp add: re_split_append_delim is_sentence_end_terminator)
qed

lemma py_strip_id: "xs \<noteq> [] \<Longrightarrow> \<not> py_isspace (hd xs) \<Longrightarrow> \<not> py_isspace (last xs) \<Longrightarrow> py_strip xs = xs"
proof -
  assume a: "xs \<noteq> []" "\<not> py_isspace (hd xs)" "\<not> py_isspace (last xs)"
  then have "dropWhile py_isspace xs = xs" by (cases xs) auto
  moreover have "dropWhile py_isspace (rev xs) = rev xs"
    using a by (cases "rev xs") (auto simp: last_rev hd_rev)
  ultimately show ?thesis by (simp add: py_strip_def)
qed

lemma py_strip_join:
  assumes "g \<noteq> []" "\<forall>s\<in>set g. s = [] \<or> \<not> py_isspace (hd s)"
  shows "py_strip (join_sentences g) = join_sentences g"
proof -
  obtain s g' where g: "g = s # g'" using assms(1) by (cases g) auto
  have ne: "join_sentences g \<noteq> []" using assms(1) by (simp add: join_sentences_Nil_iff)
  have "hd (join_sentences g) = (if s = [] then terminator else hd s)"
    by (simp add: g join_sentences_def)
  then have h: "\<not> py_isspace (hd (join_sentences g))"
    using assms(2) g by (auto simp: not_space_terminator)
  have "join_sentences g = join_sentences (butlast g) @ last g @ [terminator]"
    using assms(1) join_sentences_snoc[of "butlast g" "last g"] by simp
  then have "last (join_sentences g) = terminator" by simp
  then show ?thesis using ne h by (simp add: py_strip_id not_space_terminator)
qed

lemma concat_join: "concat (map join_sentences gs) = join_sentences (concat gs)"
  by (induction gs) (simp_all add: join_sentences_def)

text \<open>
  Claim C5, as amended. Every chunk is a run of consecutive sentences of the input, each
  followed by the terminator, with the whitespace at the start of the run stripped; the
  runs, in order, are exactly the sentence sequence \<open>re_split text\<close>. When no sentence
  begins with a whitespace character, nothing is stripped: cutting the concatenated chunks
  at the inserted terminators gives back the sentence sequence. This holds for every
  maximum chunk size.
\<close>

theorem chunk_text_coverage:
  "(\<exists>groups. [] \<notin> set groups \<and> concat groups = re_split text \<and>
      chunk_text text max_size = map (\<lambda>g. py_strip (join_sentences g)) groups) \<and>
   ((\<forall>s\<in>set (re_split text). s = [] \<or> \<not> py_isspace (hd s)) \<longrightarrow>
      butlast (re_split (concat (chunk_text text max_size))) = re_split text)"
proof -
  obtain gs where gs: "chunk_text text max_size = map (\<lambda>g. py_strip (join_sentences g)) gs"
      "concat gs = re_split text" "[] \<notin> set gs"
    using chunk_text_groups by blast
  have "butlast (re_split (concat (chunk_text text max_size))) = re_split text"
    if c: "\<forall>s\<in>set (re_split text). s = [] \<or> \<not> py_isspace (hd s)"
  proof -
    have "\<forall>g\<in>set gs. py_strip (join_sentences g) = join_sentences g"
    proof
      fix g assume "g \<in> set gs"
      then have "g \<noteq> []" "set g \<subseteq> set (re_split text)"
        using gs(3) gs(2)[symmetric] by auto
      then show "py_strip (join_sentences g) = join_sentences g"
        using c by (intro py_strip_join) auto
    qed
    then have "chunk_text text max_size = map join_sentences gs" using gs(1) by simp
    then have "concat (chunk_text text max_size) = join_sentences (re_split text)"
      by (simp add: concat_join gs(2))
    moreover have "re_split (join_sentences (re_split text)) = re_split text @ [[]]"
      by (rule re_split_join) (auto dest: re_split_no_delims)
    ultimately show ?thesis by simp
  qed
  then show ?thesis using gs by blast
qed

text \<open>
  Claim C10. For every input text and every positive maximum chunk size, every chunk
  returned by \<open>chunk_text\<close> is a non-empty string whose last character is the terminator;
  on the empty text the result is the one-element list holding just the terminator.
\<close>

theorem chunk_text_nonempty_terminated:
  assumes "0 < max_size"
  shows "(\<forall>c\<in>set (chunk_text text max_size). c \<noteq> [] \<and> last c = terminator) \<and>
         chunk_text [] max_size = [[terminator]]"
proof -
  obtain gs where gs: "chunk_text text max_size = map (\<lambda>g. py_strip (join_sentences g)) gs" "[] \<notin> set gs"
    using chunk_text_groups by blast
  have "py_strip (join_sentences g) \<noteq> [] \<and> last (py_strip (join_sentences g)) = terminator"
    if "g \<in> set gs" for g
  proof -
    from that gs(2) have "g \<noteq> []" by auto
    then have "join_sentences g = (join_sentences (butlast g) @ last g) @ [terminator]"
      using join_sentences_snoc[of "butlast g" "last g"] by simp
    then show ?thesis
      using py_strip_terminated[of "join_sentences (butlast g) @ last g"] by simp
  qed
  moreover have "chunk_text [] max_size = [[terminator]]"
    using assms py_strip_terminated[of "[]"] by (simp add: chunk_text_def)
  ultimately show ?thesis using gs(1) by auto
qed

lemma chunk_text_plain:
  assumes "\<forall>c\<in>set s. \<not> is_sentence_end c"
  shows "chunk_text s m = [py_strip (s @ [terminator])]"
  using assms by (simp add: chunk_text_def re_split_plain)

lemma chunk_text_plain_terminated:
  assumes "\<forall>c\<in>set s. \<not> is_sentence_end c" "m \<le> int (length s)"
  shows "chunk_text (s @ [terminator]) m = [py_strip (s @ [terminator]), [terminator]]"
proof -
  have "re_split (s @ terminator # []) = s # re_split []"
    using assms(1) by (rule re_split_append_delim) (rule is_sentence_end_terminator)
  then have "re_split (s @ [terminator]) = [s, []]" by simp
  then show ?thesis using assms(2) py_strip_terminated[of "[]"]
    by (simp add: chunk_text_def)
qed


text \<open>The property of C10 at the text \<open>a\<close>, terminator, \<open>b\<close> with maximum 1, which gives two chunks.\<close>

theorem chunk_text_nonempty_terminated_witness:
  "chunk_text [97, 12290, 98] 1 = [[97, 12290], [98, 12290]] \<and>
   list_all (\<lambda>c. c \<noteq> [] \<and> last c = terminator) (chunk_text [97, 12290, 98] 1) \<and>
   chunk_text [] 1 = [[terminator]]"
proof -
  have h: "(0::int) < 1" by simp
  have v: "chunk_text [97, 12290, 98] 1 = [[97, 12290], [98, 12290]]"
    by (simp add: chunk_text_def is_sentence_end_def py_strip_def py_isspace_def terminator_def)
  show ?thesis
    using v chunk_text_nonempty_terminated[OF h, of "[97, 12290, 98]"]
    by (simp add: list_all_iff)
qed

text \<open>
  Claim C5 as stated fails: \<open>strip\<close> removes the space that begins the only sentence of the
  text "space, a", so the chunk holds the sentence \<open>a\<close> and not the sentence "space, a".
\<close>

theorem chunk_text_coverage_counterexample:
  "chunk_text [32, 97] 5 = [[97, 12290]] \<and> re_split [32, 97] = [[32, 97]] \<and>
   butlast (re_split (concat (chunk_text [32, 97] 5))) \<noteq> re_split [32, 97]"
  by (simp add: chunk_text_def is_sentence_end_def py_strip_def py_isspace_def terminator_def)

text \<open>The amended C5 at a text whose sentences do not begin with whitespace.\<close>

theorem chunk_text_coverage_witness:
  "chunk_text [97, 12290, 98] 1 = [[97, 12290], [98, 12290]] \<and>
   butlast (re_split (concat (chunk_text [97, 12290, 98] 1))) = re_split [97, 12290, 98]"
proof -
  have h: "\<forall>s\<in>set (re_split [97, 12290, 98]). s = [] \<or> \<not> py_isspace (hd s)"
    by (simp add: is_sentence_end_def py_isspace_def)
  have v: "chunk_text [97, 12290, 98] 1 = [[97, 12290], [98, 12290]]"
    by (simp add: chunk_text_def is_sentence_end_def py_strip_def py_isspace_def terminator_def)
  show ?thesis
    using h v chunk_text_coverage[of "[97, 12290, 98]" 1] by blast
qed

text \<open>
  Claim C4 at the text \<open>ab\<close> with maximum 2. The only sentence, \<open>ab\<close>, has length 2 and
  does not exceed the maximum, yet the only chunk has length 3: the test of the loop
  compares the lengths before the terminator is appended.
\<close>

theorem chunk_text_exceeds_max_size:
  "chunk_text [97, 98] 2 = [[97, 98, 12290]] \<and> re_split [97, 98] = [[97, 98]] \<and>
   int (length (hd (chunk_text [97, 98] 2))) = 2 + 1"
  by (simp add: chunk_text_def is_sentence_end_def py_strip_def py_isspace_def terminator_def)

text \<open>
  What does hold in general: a chunk is at most one character longer than the maximum,
  unless it is a single sentence longer than the maximum, with its terminator.
\<close>

lemma length_py_strip: "length (py_strip s) \<le> length s"
proof -
  have "length (py_strip s) \<le> length (dropWhile py_isspace s)"
    unfolding py_strip_def using length_dropWhile_le[of py_isspace "rev (dropWhile py_isspace s)"] by simp
  also have "\<dots> \<le> length s" by (rule length_dropWhile_le)
  finally show ?thesis .
qed

lemma chunk_text_loop_bound:
  assumes "chunk_text_loop m chunks cur rest = (chunks', cur')"
    and "\<forall>c\<in>set chunks. int (length c) \<le> m + 1 \<or> (\<exists>s\<in>S. m < int (length s) \<and> c = py_strip (s @ [terminator]))"
    and "cur = [] \<or> int (length cur) \<le> m + 1 \<or> (\<exists>s\<in>S. m < int (length s) \<and> cur = s @ [terminator])"
    and "set rest \<subseteq> S"
  shows "(\<forall>c\<in>set chunks'. int (length c) \<le> m + 1 \<or> (\<exists>s\<in>S. m < int (length s) \<and> c = py_strip (s @ [terminator]))) \<and>
         (cur' = [] \<or> int (length cur') \<le> m + 1 \<or> (\<exists>s\<in>S. m < int (length s) \<and> cur' = s @ [terminator]))"
  using assms
proof (induction rest arbitrary: chunks cur)
  case Nil
  then show ?case by simp
next
  case (Cons s rest)
  have strip: "int (length (py_strip cur)) \<le> m + 1 \<or> (\<exists>s\<in>S. m < int (length s) \<and> py_strip cur = py_strip (s @ [terminator]))"
    if "cur \<noteq> []"
    using that Cons.prems(3) length_py_strip[of cur] by auto
  show ?case
  proof (cases "int (length cur) + int (length s) \<le> m")
    case True
    show ?thesis
    proof (rule Cons.IH[of chunks "cur @ s @ [terminator]"])
      show "chunk_text_loop m chunks (cur @ s @ [terminator]) rest = (chunks', cur')"
        using True Cons.prems(1) by simp
      show "cur @ s @ [terminator] = [] \<or> int (length (cur @ s @ [terminator])) \<le> m + 1 \<or>
            (\<exists>sa\<in>S. m < int (length sa) \<and> cur @ s @ [terminator] = sa @ [terminator])"
        using True by simp
    qed (use Cons.prems in auto)
  next
    case False
    let ?chunks = "if cur \<noteq> [] then chunks @ [py_strip cur] else chunks"
    show ?thesis
    proof (rule Cons.IH[of ?chunks "s @ [terminator]"])
      show "chunk_text_loop m ?chunks (s @ [terminator]) rest = (chunks', cur')"
        using False Cons.prems(1) by simp
      show "\<forall>c\<in>set ?chunks. int (length c) \<le> m + 1 \<or> (\<exists>s\<in>S. m < int (length s) \<and> c = py_strip (s @ [terminator]))"
        using Cons.prems(2) strip by auto
      show "s @ [terminator] = [] \<or> int (length (s @ [terminator])) \<le> m + 1 \<or>
            (\<exists>sa\<in>S. m < int (length sa) \<and> s @ [terminator] = sa @ [terminator])"
      proof (cases "int (length s) \<le> m")
        case True
        then show ?thesis by simp
      next
        case False
        moreover have "s \<in> S" using Cons.prems(4) by simp
        ultimately show ?thesis by auto
      qed
      show "set rest \<subseteq> S" using Cons.prems(4) by simp
    qed
  qed
qed

lemma chunk_text_length_bound:
  assumes "c \<in> set (chunk_text text m)"
  shows "int (length c) \<le> m + 1 \<or>
         (\<exists>s\<in>set (re_split text). m < int (length s) \<and> c = py_strip (s @ [terminator]))"
proof -
  obtain chunks' cur' where l: "chunk_text_loop m [] [] (re_split text) = (chunks', cur')"
    by (cases "chunk_text_loop m [] [] (re_split text)")
  from chunk_text_loop_bound[OF l, of "set (re_split text)"]
  have inv: "\<forall>c\<in>set chunks'. int (length c) \<le> m + 1 \<or> (\<exists>s\<in>set (re_split text). m < int (length s) \<and> c = py_strip (s @ [terminator]))"
    "cur' = [] \<or> int (length cur') \<le> m + 1 \<or> (\<exists>s\<in>set (re_split text). m < int (length s) \<and> cur' = s @ [terminator])"
    by auto
  have "int (length (py_strip cur')) \<le> m + 1 \<or> (\<exists>s\<in>set (re_split text). m < int (length s) \<and> py_strip cur' = py_strip (s @ [terminator]))"
    if "cur' \<noteq> []"
    using that inv(2) length_py_strip[of cur'] by auto
  then show ?thesis using assms l inv(1) by (auto simp: chunk_text_def split: if_splits)
qed

section \<open>Properties of deduplication and of the records\<close>

lemma deduplicate_characters_loop_eq:
  "deduplicate_characters_loop lower seen unique chars = dedup_loop (normalized_name lower) seen unique chars"
  by (induction chars arbitrary: seen unique) simp_all

lemma deduplicate_relationships_loop_eq:
  "deduplicate_relationships_loop seen unique rels = dedup_loop rel_key seen unique rels"
  by (induction rels arbitrary: seen unique) simp_all

lemma dedup_loop_acc: "dedup_loop key seen unique xs = unique @ dedup_loop key seen [] xs"
proof (induction xs arbitrary: seen unique)
  case Nil
  then show ?case by simp
next
  case (Cons x xs)
  show ?case
    using Cons.IH[of "insert (key x) seen" "unique @ [x]"] Cons.IH[of "insert (key x) seen" "[x]"]
      Cons.IH[of seen unique]
    by simp
qed

lemma dedup_loop_Cons:
  "dedup_loop key seen [] (x # xs) =
     (if key x \<in> seen then dedup_loop key seen [] xs
      else x # dedup_loop key (insert (key x) seen) [] xs)"
  using dedup_loop_acc[of key "insert (key x) seen" "[x]" xs] by simp

lemma dedup_loop_keys_unseen: "y \<in> set (dedup_loop key seen [] xs) \<Longrightarrow> key y \<notin> seen"
  by (induction xs arbitrary: seen) (auto simp: dedup_loop_Cons simp del: dedup_loop.simps(2) split: if_splits)

lemma dedup_loop_idem: "dedup_loop key seen [] (dedup_loop key seen [] xs) = dedup_loop key seen [] xs"
proof (induction xs arbitrary: seen)
  case Nil
  then show ?case by simp
next
  case (Cons x xs)
  show ?case
  proof (cases "key x \<in> seen")
    case True
    then show ?thesis using Cons.IH[of seen] by (simp add: dedup_loop_Cons del: dedup_loop.simps(2))
  next
    case False
    then show ?thesis using Cons.IH[of "insert (key x) seen"]
      by (simp add: dedup_loop_Cons del: dedup_loop.simps(2))
  qed
qed

lemma upt_Suc_shift: "[0..<Suc n] = 0 # map Suc [0..<n]"
  by (simp add: upt_conv_Cons map_Suc_upt del: upt_Suc)

lemma dedup_loop_first_seen:
  "dedup_loop key seen [] xs =
     map ((!) xs) (filter (\<lambda>i. key (xs ! i) \<notin> seen \<and> (\<forall>j<i. key (xs ! j) \<noteq> key (xs ! i))) [0..<length xs])"
proof (induction xs arbitrary: seen)
  case Nil
  then show ?case by simp
next
  case (Cons x xs)
  let ?P = "\<lambda>s ys i. key (ys ! i) \<notin> s \<and> (\<forall>j<i. key (ys ! j) \<noteq> key (ys ! i))"
  have shift: "filter (?P seen (x # xs)) [0..<length (x # xs)] =
      (if key x \<notin> seen then [0] else []) @ map Suc (filter (\<lambda>i. ?P seen (x # xs) (Suc i)) [0..<length xs])"
    by (simp add: upt_Suc_shift filter_map comp_def del: upt_Suc)
  have tail: "?P seen (x # xs) (Suc i) \<longleftrightarrow> ?P (insert (key x) seen) xs i" for i
    by (auto simp: less_Suc_eq_0_disj)
  have tail': "?P (insert (key x) seen) xs i \<longleftrightarrow> ?P seen xs i" if "key x \<in> seen" for i
    using that by auto
  have m: "map ((!) (x # xs)) (map Suc is) = map ((!) xs) is" for "is"
    by simp
  show ?case
  proof (cases "key x \<in> seen")
    case True
    have "filter (\<lambda>i. ?P seen (x # xs) (Suc i)) [0..<length xs] = filter (?P seen xs) [0..<length xs]"
      using tail tail'[OF True] by simp
    then have "map ((!) (x # xs)) (filter (?P seen (x # xs)) [0..<length (x # xs)]) =
        map ((!) xs) (filter (?P seen xs) [0..<length xs])"
      unfolding shift using True by (simp del: upt_Suc)
    then show ?thesis
      using True Cons.IH[of seen] by (simp add: dedup_loop_Cons del: dedup_loop.simps(2) upt_Suc)
  next
    case False
    have "filter (\<lambda>i. ?P seen (x # xs) (Suc i)) [0..<length xs] =
        filter (?P (insert (key x) seen) xs) [0..<length xs]"
      using tail by simp
    then have "map ((!) (x # xs)) (filter (?P seen (x # xs)) [0..<length (x # xs)]) =
        x # map ((!) xs) (filter (?P (insert (key x) seen) xs) [0..<length xs])"
      unfolding shift using False by (simp del: upt_Suc)
    then show ?thesis
      using False Cons.IH[of "insert (key x) seen"]
      by (simp add: dedup_loop_Cons del: dedup_loop.simps(2) upt_Suc)
  qed
qed

text \<open>
  Claim C7. For every list of characters and every list of relationships, deduplicating
  twice gives the same list as deduplicating once, and the deduplicated list consists of
  the elements whose key does not occur at an earlier position, in the order of the input:
  the first occurrence of each group of colliding records is kept and the first-seen
  order of the survivors is preserved. The key of a character is its normalized name, the
  key of a relationship is \<open>rel_key\<close>.
\<close>

theorem deduplicate_idempotent_first_seen:
  "deduplicate_characters lower (deduplicate_characters lower chars) = deduplicate_characters lower chars \<and>
   deduplicate_characters lower chars =
     map ((!) chars) (filter (\<lambda>i. \<forall>j<i. normalized_name lower (chars ! j) \<noteq> normalized_name lower (chars ! i))
                        [0..<length chars]) \<and>
   deduplicate_relationships (deduplicate_relationships rels) = deduplicate_relationships rels \<and>
   deduplicate_relationships rels =
     map ((!) rels) (filter (\<lambda>i. \<forall>j<i. rel_key (rels ! j) \<noteq> rel_key (rels ! i)) [0..<length rels])"
proof -
  have c1: "deduplicate_characters lower (deduplicate_characters lower chars) = deduplicate_characters lower chars"
    by (simp add: deduplicate_characters_def deduplicate_characters_loop_eq dedup_loop_idem)
  have c2: "deduplicate_characters lower chars =
     map ((!) chars) (filter (\<lambda>i. \<forall>j<i. normalized_name lower (chars ! j) \<noteq> normalized_name lower (chars ! i))
                        [0..<length chars])"
    unfolding deduplicate_characters_def deduplicate_characters_loop_eq
    using dedup_loop_first_seen[of "normalized_name lower" "{}" chars] by simp
  have r1: "deduplicate_relationships (deduplicate_relationships rels) = deduplicate_relationships rels"
    by (simp add: deduplicate_relationships_def deduplicate_relationships_loop_eq dedup_loop_idem)
  have r2: "deduplicate_relationships rels =
     map ((!) rels) (filter (\<lambda>i. \<forall>j<i. rel_key (rels ! j) \<noteq> rel_key (rels ! i)) [0..<length rels])"
    unfolding deduplicate_relationships_def deduplicate_relationships_loop_eq
    using dedup_loop_first_seen[of rel_key "{}" rels] by simp
  from c1 c2 r1 r2 show ?thesis by blast
qed

text \<open>
  C7 at three characters whose first and third names differ by a trailing space, and at
  three relationships whose first and third agree on the key fields.
\<close>

theorem deduplicate_idempotent_first_seen_witness:
  "deduplicate_characters id
     [example_character [22826, 37070], example_character [33457], example_character [22826, 37070, 32]] =
     [example_character [22826, 37070], example_character [33457]] \<and>
   deduplicate_characters id
     (deduplicate_characters id
        [example_character [22826, 37070], example_character [33457], example_character [22826, 37070, 32]]) =
     [example_character [22826, 37070], example_character [33457]] \<and>
   deduplicate_relationships
     [example_relationship [97] [98] [99] [1], example_relationship [98] [97] [99] [2],
      example_relationship [97] [98] [99] [3]] =
     [example_relationship [97] [98] [99] [1], example_relationship [98] [97] [99] [2]] \<and>
   deduplicate_relationships
     (deduplicate_relationships
        [example_relationship [97] [98] [99] [1], example_relationship [98] [97] [99] [2],
         example_relationship [97] [98] [99] [3]]) =
     [example_relationship [97] [98] [99] [1], example_relationship [98] [97] [99] [2]]"
proof -
  let ?cs = "[example_character [22826, 37070], example_character [33457], example_character [22826, 37070, 32]]"
  let ?rs = "[example_relationship [97] [98] [99] [1], example_relationship [98] [97] [99] [2],
      example_relationship [97] [98] [99] [3]]"
  have c: "deduplicate_characters id ?cs = [example_character [22826, 37070], example_character [33457]]"
    by (simp add: deduplicate_characters_def normalized_name_def example_character_def)
  have r: "deduplicate_relationships ?rs =
      [example_relationship [97] [98] [99] [1], example_relationship [98] [97] [99] [2]]"
    by (simp add: deduplicate_relationships_def rel_key_def example_relationship_def)
  show ?thesis
    using c r deduplicate_idempotent_first_seen[of id ?cs ?rs] by metis
qed

text \<open>
  Claim C8 at two relationships with different persons: \<open>a_b\<close> with \<open>c\<close>, and \<open>a\<close> with
  \<open>b_c\<close>, both of relation type \<open>d\<close>. The key joins the fields by underscores, so both
  have the key \<open>a_b_c_d\<close> and the second record is dropped although the triples differ.
\<close>

theorem rel_key_collision:
  "deduplicate_relationships
     [example_relationship [97, 95, 98] [99] [100] [1], example_relationship [97] [98, 95, 99] [100] [2]] =
     [example_relationship [97, 95, 98] [99] [100] [1]] \<and>
   person1 (example_relationship [97, 95, 98] [99] [100] [1]) \<noteq> person1 (example_relationship [97] [98, 95, 99] [100] [2]) \<and>
   person2 (example_relationship [97, 95, 98] [99] [100] [1]) \<noteq> person2 (example_relationship [97] [98, 95, 99] [100] [2])"
  by (simp add: deduplicate_relationships_def rel_key_def example_relationship_def)

text \<open>
  The key does tell the triples apart when no person name holds an underscore.
\<close>

lemma append_sep_eq:
  "x \<notin> set xs \<Longrightarrow> x \<notin> set xs' \<Longrightarrow> xs @ x # ys = xs' @ x # ys' \<Longrightarrow> xs = xs' \<and> ys = ys'"
proof (induction xs arbitrary: xs')
  case Nil
  then show ?case by (cases xs') auto
next
  case (Cons a xs)
  then show ?case by (cases xs') auto
qed

lemma rel_key_injective_without_underscore:
  assumes "95 \<notin> set (person1 a)" "95 \<notin> set (person2 a)"
    and "95 \<notin> set (person1 b)" "95 \<notin> set (person2 b)"
    and "rel_key a = rel_key b"
  shows "person1 a = person1 b \<and> person2 a = person2 b \<and> relation_type a = relation_type b"
proof -
  have "person1 a @ 95 # (person2 a @ 95 # relation_type a) =
        person1 b @ 95 # (person2 b @ 95 # relation_type b)"
    using assms(5) by (simp add: rel_key_def)
  then have "person1 a = person1 b \<and>
      person2 a @ 95 # relation_type a = person2 b @ 95 # relation_type b"
    using assms(1,3) by (intro append_sep_eq)
  then show ?thesis using assms(2,4) append_sep_eq[of 95 "person2 a" "person2 b"] by blast
qed

text \<open>
  Claim C9 as stated fails: from a response element without attributes the optional
  fields of the records are \<open>None\<close>.
\<close>

theorem optional_fields_null_counterexample:
  "age (make_character example_extraction) = None \<and>
   occupation (make_character example_extraction) = None \<and>
   appearance (make_character example_extraction) = None \<and>
   personality (make_character example_extraction) = None \<and>
   target (make_emotion example_extraction) = None"
  by (simp add: make_character_def make_emotion_def example_extraction_def Let_def)

text \<open>
  Claim C9, as amended. In every record built from a response element, each field of
  type \<open>str\<close> holds the value of the response when it is present and an explicit default
  otherwise: the "unknown" string for name, gender, emotion type, subject, person1,
  person2 and relation type, the "normal" string for intensity, the "one-way" string for
  direction and the empty string for quote and evidence; name, quote and evidence take
  the extracted span when it is not empty. The fields of type \<open>Optional[str]\<close> (age,
  occupation, appearance, personality, target) are exactly the attribute of the response,
  so they are \<open>None\<close> when it is absent.
\<close>

theorem record_field_defaults:
  "name (make_character e) =
     (case extraction_text e of
        Some (c # cs) \<Rightarrow> c # cs
      | _ \<Rightarrow> (case attributes e ''name'' of Some v \<Rightarrow> v | None \<Rightarrow> unknown_str)) \<and>
   gender (make_character e) = (case attributes e ''gender'' of Some v \<Rightarrow> v | None \<Rightarrow> unknown_str) \<and>
   age (make_character e) = attributes e ''age'' \<and>
   occupation (make_character e) = attributes e ''occupation'' \<and>
   appearance (make_character e) = attributes e ''appearance'' \<and>
   personality (make_character e) = attributes e ''personality'' \<and>
   emotion_type (make_emotion e) = (case attributes e ''emotion_type'' of Some v \<Rightarrow> v | None \<Rightarrow> unknown_str) \<and>
   subject (make_emotion e) = (case attributes e ''subject'' of Some v \<Rightarrow> v | None \<Rightarrow> unknown_str) \<and>
   target (make_emotion e) = attributes e ''target'' \<and>
   intensity (make_emotion e) = (case attributes e ''intensity'' of Some v \<Rightarrow> v | None \<Rightarrow> normal_str) \<and>
   quote (make_emotion e) =
     (case extraction_text e of
        Some (c # cs) \<Rightarrow> c # cs
      | _ \<Rightarrow> (case attributes e ''quote'' of Some v \<Rightarrow> v | None \<Rightarrow> [])) \<and>
   person1 (make_relationship e) = (case attributes e ''person1'' of Some v \<Rightarrow> v | None \<Rightarrow> unknown_str) \<and>
   person2 (make_relationship e) = (case attributes e ''person2'' of Some v \<Rightarrow> v | None \<Rightarrow> unknown_str) \<and>
   relation_type (make_relationship e) =
     (case attributes e ''relation_type'' of Some v \<Rightarrow> v | None \<Rightarrow> unknown_str) \<and>
   direction (make_relationship e) = (case attributes e ''direction'' of Some v \<Rightarrow> v | None \<Rightarrow> one_way_str) \<and>
   evidence (make_relationship e) =
     (case extraction_text e of
        Some (c # cs) \<Rightarrow> c # cs
      | _ \<Rightarrow> (case attributes e ''evidence'' of Some v \<Rightarrow> v | None \<Rightarrow> []))"
  unfolding make_character_def make_emotion_def make_relationship_def attrs_get_def py_or_def Let_def
  by (intro conjI) (simp_all split: option.split list.split)

section \<open>Properties of the record building\<close>

lemma build_loop_attributed:
  "build_loop build items (map Attributed es) = Inr (items @ map build es)"
  by (induction es arbitrary: items) simp_all

lemma build_loop_not_json: "build_loop build items elements \<noteq> Inl (JSONDecodeError msg)"
  by (induction build items elements rule: build_loop.induct) (simp_all add: attribute_error_def)

lemma build_records_not_json: "build_records build extractions \<noteq> Inl (JSONDecodeError msg)"
  by (cases extractions) (simp_all add: build_records_def type_error_def build_loop_not_json)

lemma try_extract_json_iff:
  "try_extract build client tr request = Inl (JSONDecodeError msg) \<longleftrightarrow>
   client tr request = Raises (JSONDecodeError msg)"
  by (cases "client tr request") (simp_all add: try_extract_def build_records_not_json)

lemma try_extract_raises: "client tr request = Raises e \<Longrightarrow> try_extract build client tr request = Inl e"
  by (simp add: try_extract_def)

lemma build_records_example: "build_records build example_result = Inr [build example_extraction]"
  by (simp add: build_records_def example_result_def)

lemma try_extract_example:
  "client tr request = Returns example_result \<Longrightarrow>
   try_extract build client tr request = Inr [build example_extraction]"
  by (simp add: try_extract_def build_records_example)

section \<open>Properties of the safe extraction\<close>

lemma py_strip_replicate_terminated:
  "\<not> py_isspace c \<Longrightarrow> py_strip (replicate n c @ [terminator]) = replicate n c @ [terminator]"
  by (simp add: py_strip_terminated)

text \<open>
  A call that returns within some depth returns the same within any greater depth: the
  value \<open>None\<close> only ever says that the depth allowed did not suffice.
\<close>

lemma retry_loop_fuel_mono:
  assumes "\<And>tr c x. attempt tr c = Some x \<Longrightarrow> attempt' tr c = Some x"
    and "retry_loop attempt acc tr chunks = Some y"
  shows "retry_loop attempt' acc tr chunks = Some y"
  using assms(2)
proof (induction chunks arbitrary: acc tr)
  case Nil
  then show ?case by simp
next
  case (Cons c rest)
  then obtain r tr1 where a: "attempt tr c = Some (r, tr1)"
    by (cases "attempt tr c") auto
  then have a': "attempt' tr c = Some (r, tr1)" by (rule assms(1))
  show ?case
  proof (cases r)
    case (Inl e)
    then show ?thesis using Cons.prems a a' Cons.IH[of acc tr1] by simp
  next
    case (Inr xs)
    then show ?thesis using Cons.prems a a' Cons.IH[of "acc @ xs" tr1] by simp
  qed
qed

lemma safe_extract_characters_fuel_mono:
  "safe_extract_characters fuel client tr t = Some x \<Longrightarrow>
   safe_extract_characters (Suc fuel) client tr t = Some x"
proof (induction fuel arbitrary: tr t x)
  case 0
  then show ?case by simp
next
  case (Suc fuel)
  let ?tr1 = "tr @ [Call (Extract CharacterK t)]"
  show ?case
  proof (cases "\<exists>msg. try_extract make_character client tr (Extract CharacterK t) = Inl (JSONDecodeError msg) \<and> length t > 1000")
    case True
    then obtain y where y: "retry_loop (safe_extract_characters fuel client) [] ?tr1 (take 3 (chunk_text t 1000)) = Some y"
      using Suc.prems by (auto split: option.splits)
    have "retry_loop (safe_extract_characters (Suc fuel) client) [] ?tr1 (take 3 (chunk_text t 1000)) = Some y"
      using Suc.IH y by (rule retry_loop_fuel_mono)
    then show ?thesis using True Suc.prems y by (auto simp del: retry_loop.simps)
  next
    case False
    then show ?thesis
      using Suc.prems by (auto split: sum.splits py_exception.splits if_splits)
  qed
qed

lemma safe_extract_emotions_fuel_mono:
  "safe_extract_emotions fuel client tr t = Some x \<Longrightarrow>
   safe_extract_emotions (Suc fuel) client tr t = Some x"
proof (induction fuel arbitrary: tr t x)
  case 0
  then show ?case by simp
next
  case (Suc fuel)
  let ?tr1 = "tr @ [Call (Extract EmotionK t)]"
  show ?case
  proof (cases "\<exists>msg. try_extract make_emotion client tr (Extract EmotionK t) = Inl (JSONDecodeError msg) \<and> length t > 1000")
    case True
    then obtain y where y: "retry_loop (safe_extract_emotions fuel client) [] ?tr1 (take 3 (chunk_text t 1000)) = Some y"
      using Suc.prems by (auto split: option.splits)
    have "retry_loop (safe_extract_emotions (Suc fuel) client) [] ?tr1 (take 3 (chunk_text t 1000)) = Some y"
      using Suc.IH y by (rule retry_loop_fuel_mono)
    then show ?thesis using True Suc.prems y by (auto simp del: retry_loop.simps)
  next
    case False
    then show ?thesis
      using Suc.prems by (auto split: sum.splits py_exception.splits if_splits)
  qed
qed

lemma safe_extract_relationships_fuel_mono:
  "safe_extract_relationships fuel client tr t = Some x \<Longrightarrow>
   safe_extract_relationships (Suc fuel) client tr t = Some x"
proof (induction fuel arbitrary: tr t x)
  case 0
  then show ?case by simp
next
  case (Suc fuel)
  let ?tr1 = "tr @ [Call (Extract RelationshipK t)]"
  show ?case
  proof (cases "\<exists>msg. try_extract make_relationship client tr (Extract RelationshipK t) = Inl (JSONDecodeError msg) \<and> length t > 1000")
    case True
    then obtain y where y: "retry_loop (safe_extract_relationships fuel client) [] ?tr1 (take 3 (chunk_text t 1000)) = Some y"
      using Suc.prems by (auto split: option.splits)
    have "retry_loop (safe_extract_relationships (Suc fuel) client) [] ?tr1 (take 3 (chunk_text t 1000)) = Some y"
      using Suc.IH y by (rule retry_loop_fuel_mono)
    then show ?thesis using True Suc.prems y by (auto simp del: retry_loop.simps)
  next
    case False
    then show ?thesis
      using Suc.prems by (auto split: sum.splits py_exception.splits if_splits)
  qed
qed

text \<open>
  The loop over the sub-chunks returns the concatenation that \<open>concat_successes\<close> describes,
  appended to what was accumulated before.
\<close>

lemma retry_loop_concat:
  "retry_loop attempt acc tr chunks =
     (case concat_successes attempt tr chunks of
        Some (Inr items, tr') \<Rightarrow> Some (acc @ items, tr')
      | _ \<Rightarrow> None)"
proof (induction chunks arbitrary: acc tr)
  case Nil
  then show ?case by simp
next
  case (Cons c rest)
  show ?case
  proof (cases "attempt tr c")
    case None
    then show ?thesis by simp
  next
    case (Some a)
    obtain r tr1 where a: "a = (r, tr1)" by (cases a)
    show ?thesis
    proof (cases r)
      case (Inl e)
      then show ?thesis using Some a Cons.IH[of acc tr1]
        by (simp split: option.splits prod.splits sum.splits)
    next
      case (Inr xs)
      then show ?thesis using Some a Cons.IH[of "acc @ xs" tr1]
        by (simp split: option.splits prod.splits sum.splits)
    qed
  qed
qed

lemma narrowing_result:
  "(case retry_loop attempt [] tr chunks of None \<Rightarrow> None | Some (items, tr') \<Rightarrow> Some (Inr items, tr')) =
   concat_successes attempt tr chunks"
proof -
  have shape: "concat_successes attempt tr chunks = Some (x, tr') \<Longrightarrow> \<exists>items. x = Inr items" for x tr'
    by (cases chunks) (auto split: option.splits prod.splits sum.splits)
  show ?thesis
    unfolding retry_loop_concat
    by (auto split: option.splits prod.splits sum.splits dest: shape)
qed

text \<open>
  Claim C2. When the client raises a JSON decode error on the text, each of the three
  safe extraction methods does the following. If the text is longer than 1000 characters,
  it re-chunks the text with maximum 1000, calls itself on the first three chunks at most
  (\<open>take 3\<close>) and returns the concatenation of the results of the calls that succeed, a
  call that raises contributing nothing. If the text has 1000 characters or fewer, it
  returns the empty list, and the trace shows the one failed call and nothing after it.
  The recursive calls are stated for the depth \<open>fuel\<close> that remains.
\<close>

theorem safe_extract_malformed_narrowing:
  "(client tr (Extract CharacterK text) = Raises (JSONDecodeError msg) \<longrightarrow>
      safe_extract_characters (Suc fuel) client tr text =
        (if length text > 1000
         then concat_successes (safe_extract_characters fuel client) (tr @ [Call (Extract CharacterK text)])
                (take 3 (chunk_text text 1000))
         else Some (Inr [], tr @ [Call (Extract CharacterK text)]))) \<and>
   (client tr (Extract EmotionK text) = Raises (JSONDecodeError msg) \<longrightarrow>
      safe_extract_emotions (Suc fuel) client tr text =
        (if length text > 1000
         then concat_successes (safe_extract_emotions fuel client) (tr @ [Call (Extract EmotionK text)])
                (take 3 (chunk_text text 1000))
         else Some (Inr [], tr @ [Call (Extract EmotionK text)]))) \<and>
   (client tr (Extract RelationshipK text) = Raises (JSONDecodeError msg) \<longrightarrow>
      safe_extract_relationships (Suc fuel) client tr text =
        (if length text > 1000
         then concat_successes (safe_extract_relationships fuel client) (tr @ [Call (Extract RelationshipK text)])
                (take 3 (chunk_text text 1000))
         else Some (Inr [], tr @ [Call (Extract RelationshipK text)])))"
  by (simp add: narrowing_result try_extract_def)

lemma re_split_four_sentences:
  "re_split four_sentences = [replicate 600 97, replicate 600 98, replicate 600 99, replicate 600 100]"
proof -
  have plain: "\<not> is_sentence_end 97" "\<not> is_sentence_end 98" "\<not> is_sentence_end 99" "\<not> is_sentence_end 100"
    by (simp_all add: is_sentence_end_def)
  show ?thesis
    unfolding four_sentences_def
    by (simp add: re_split_append_delim re_split_plain is_sentence_end_terminator plain)
qed

lemma chunk_text_four_sentences:
  "chunk_text four_sentences 1000 =
     [replicate 600 97 @ [terminator], replicate 600 98 @ [terminator],
      replicate 600 99 @ [terminator], replicate 600 100 @ [terminator]]"
  by (simp add: chunk_text_def re_split_four_sentences py_strip_replicate_terminated py_isspace_def)

lemma length_four_sentences: "length four_sentences = 2403"
  by (simp add: four_sentences_def)

text \<open>
  C2 with a client whose first response is unparseable. On the four sentences of 600
  characters the text is cut into four chunks and the method retries the first three;
  on the text \<open>ab\<close> it returns the empty list after the one call.
\<close>

theorem safe_extract_malformed_narrowing_witness:
  "safe_extract_characters (Suc (Suc 0)) malformed_first [] four_sentences =
     Some (Inr [make_character example_extraction, make_character example_extraction,
                make_character example_extraction],
           [Call (Extract CharacterK four_sentences),
            Call (Extract CharacterK (replicate 600 97 @ [terminator])),
            Call (Extract CharacterK (replicate 600 98 @ [terminator])),
            Call (Extract CharacterK (replicate 600 99 @ [terminator]))]) \<and>
   safe_extract_emotions (Suc (Suc 0)) malformed_first [] four_sentences =
     Some (Inr [make_emotion example_extraction, make_emotion example_extraction,
                make_emotion example_extraction],
           [Call (Extract EmotionK four_sentences),
            Call (Extract EmotionK (replicate 600 97 @ [terminator])),
            Call (Extract EmotionK (replicate 600 98 @ [terminator])),
            Call (Extract EmotionK (replicate 600 99 @ [terminator]))]) \<and>
   safe_extract_relationships (Suc (Suc 0)) malformed_first [] four_sentences =
     Some (Inr [make_relationship example_extraction, make_relationship example_extraction,
                make_relationship example_extraction],
           [Call (Extract RelationshipK four_sentences),
            Call (Extract RelationshipK (replicate 600 97 @ [terminator])),
            Call (Extract RelationshipK (replicate 600 98 @ [terminator])),
            Call (Extract RelationshipK (replicate 600 99 @ [terminator]))]) \<and>
   safe_extract_characters (Suc 0) malformed_first [] [97, 98] =
     Some (Inr [], [Call (Extract CharacterK [97, 98])]) \<and>
   safe_extract_emotions (Suc 0) malformed_first [] [97, 98] =
     Some (Inr [], [Call (Extract EmotionK [97, 98])]) \<and>
   safe_extract_relationships (Suc 0) malformed_first [] [97, 98] =
     Some (Inr [], [Call (Extract RelationshipK [97, 98])])"
proof -
  have h: "malformed_first [] (Extract k t) = Raises (JSONDecodeError ''Expecting value'')" for k t
    by (simp add: malformed_first_def)
  have later: "malformed_first (e # tr) request = Returns example_result" for e tr request
    by (simp add: malformed_first_def)
  note long = safe_extract_malformed_narrowing[of malformed_first "[]" four_sentences "''Expecting value''" "Suc 0"]
  note short = safe_extract_malformed_narrowing[of malformed_first "[]" "[97, 98]" "''Expecting value''" 0]
  show ?thesis
    using long short
    by (simp add: h later length_four_sentences chunk_text_four_sentences try_extract_def
        build_records_example)
qed


text \<open>
  Re-chunking need not shrink the text. A text without sentence end comes back as one
  chunk, one character longer; a sentence of 1000 characters with its terminator comes
  back as the first of two chunks.
\<close>

lemma chunk_text_long_sentence:
  "chunk_text (replicate 1001 97) 1000 = [replicate 1001 97 @ [terminator]]"
proof -
  have "\<forall>c\<in>set (replicate 1001 (97::nat)). \<not> is_sentence_end c"
    by (simp add: is_sentence_end_def)
  then have "chunk_text (replicate 1001 97) 1000 = [py_strip (replicate 1001 97 @ [terminator])]"
    by (rule chunk_text_plain)
  then show ?thesis by (simp add: py_strip_replicate_terminated py_isspace_def)
qed

lemma chunk_text_full_sentence:
  "chunk_text (replicate 1000 97 @ [terminator]) 1000 = [replicate 1000 97 @ [terminator], [terminator]]"
proof -
  have "\<forall>c\<in>set (replicate 1000 (97::nat)). \<not> is_sentence_end c"
    by (simp add: is_sentence_end_def)
  then have "chunk_text (replicate 1000 97 @ [terminator]) 1000 =
      [py_strip (replicate 1000 97 @ [terminator]), [terminator]]"
    by (rule chunk_text_plain_terminated) simp
  then show ?thesis by (simp add: py_strip_replicate_terminated py_isspace_def)
qed

lemma try_extract_always_malformed:
  "try_extract build always_malformed tr request = Inl (JSONDecodeError ''Expecting value'')"
  by (simp add: try_extract_def always_malformed_def)

lemma characters_diverge:
  "safe_extract_characters fuel always_malformed tr (replicate 1000 97 @ [terminator]) = None"
proof (induction fuel arbitrary: tr)
  case 0
  then show ?case by simp
next
  case (Suc fuel)
  show ?case
    by (simp add: try_extract_always_malformed chunk_text_full_sentence Suc.IH)
qed

lemma emotions_diverge:
  "safe_extract_emotions fuel always_malformed tr (replicate 1000 97 @ [terminator]) = None"
proof (induction fuel arbitrary: tr)
  case 0
  then show ?case by simp
next
  case (Suc fuel)
  show ?case
    by (simp add: try_extract_always_malformed chunk_text_full_sentence Suc.IH)
qed

lemma relationships_diverge:
  "safe_extract_relationships fuel always_malformed tr (replicate 1000 97 @ [terminator]) = None"
proof (induction fuel arbitrary: tr)
  case 0
  then show ?case by simp
next
  case (Suc fuel)
  show ?case
    by (simp add: try_extract_always_malformed chunk_text_full_sentence Suc.IH)
qed

text \<open>
  Claim C3 at the text made of one sentence of 1000 characters and its terminator, with a
  client whose every response is unparseable. The text has 1001 characters, so each of
  the safe extraction methods re-chunks it; the first sub-chunk is the text itself, so the
  method calls itself on the same text again. Whatever depth is allowed, the call does not
  return within it.
\<close>

theorem narrowing_does_not_terminate:
  "length (replicate 1000 (97::nat) @ [terminator]) = 1001 \<and>
   chunk_text (replicate 1000 97 @ [terminator]) 1000 = [replicate 1000 97 @ [terminator], [terminator]] \<and>
   safe_extract_characters fuel always_malformed tr (replicate 1000 97 @ [terminator]) = None \<and>
   safe_extract_emotions fuel always_malformed tr (replicate 1000 97 @ [terminator]) = None \<and>
   safe_extract_relationships fuel always_malformed tr (replicate 1000 97 @ [terminator]) = None"
  using chunk_text_full_sentence characters_diverge emotions_diverge relationships_diverge by simp

section \<open>Properties of the orchestrator\<close>

text \<open>
  Every handler of the safe extraction methods returns a list, so no exception leaves
  them, whatever the client does.
\<close>

lemma safe_extract_characters_never_raises:
  "safe_extract_characters fuel client tr t \<noteq> Some (Inl e, tr')"
  by (cases fuel) (auto split: sum.splits py_exception.splits option.splits prod.splits)

lemma safe_extract_emotions_never_raises:
  "safe_extract_emotions fuel client tr t \<noteq> Some (Inl e, tr')"
  by (cases fuel) (auto split: sum.splits py_exception.splits option.splits prod.splits)

lemma safe_extract_relationships_never_raises:
  "safe_extract_relationships fuel client tr t \<noteq> Some (Inl e, tr')"
  by (cases fuel) (auto split: sum.splits py_exception.splits option.splits prod.splits)

lemma safe_extract_results_never_raises:
  "safe_extract_results fuel client tr t \<noteq> Some (Inl e, tr')"
  using safe_extract_characters_never_raises safe_extract_emotions_never_raises
    safe_extract_relationships_never_raises
  by (auto simp: safe_extract_results_def split: option.splits prod.splits sum.splits)


text \<open>
  Hence the handler of the chunk loop never runs, and no run of \<open>extract_all\<close> waits the
  cooldown of 60 seconds: the events a run adds to the trace are calls of the client and
  the waits of 2 seconds between chunks.
\<close>

lemma retry_loop_no_cooldown:
  assumes "\<And>tr c r tr'. attempt tr c = Some (r, tr') \<Longrightarrow> \<exists>evs. tr' = tr @ evs \<and> Sleep 60 \<notin> set evs"
    and "retry_loop attempt acc tr chunks = Some (acc', tr')"
  shows "\<exists>evs. tr' = tr @ evs \<and> Sleep 60 \<notin> set evs"
  using assms(2)
proof (induction chunks arbitrary: acc tr)
  case Nil
  then show ?case by simp
next
  case (Cons c rest)
  then obtain r tr1 where a: "attempt tr c = Some (r, tr1)"
    by (cases "attempt tr c") auto
  from assms(1)[OF a] obtain evs1 where e1: "tr1 = tr @ evs1" "Sleep 60 \<notin> set evs1" by blast
  obtain acc1 where "retry_loop attempt acc1 tr1 rest = Some (acc', tr')"
    using Cons.prems a by (cases r) auto
  from Cons.IH[OF this] obtain evs2 where "tr' = tr1 @ evs2" "Sleep 60 \<notin> set evs2" by blast
  then show ?case using e1 by (intro exI[of _ "evs1 @ evs2"]) simp
qed

lemma safe_extract_characters_no_cooldown:
  "safe_extract_characters fuel client tr t = Some (r, tr') \<Longrightarrow> \<exists>evs. tr' = tr @ evs \<and> Sleep 60 \<notin> set evs"
proof (induction fuel arbitrary: tr t r tr')
  case 0
  then show ?case by simp
next
  case (Suc fuel)
  let ?tr1 = "tr @ [Call (Extract CharacterK t)]"
  show ?case
  proof (cases "\<exists>msg. try_extract make_character client tr (Extract CharacterK t) = Inl (JSONDecodeError msg) \<and> length t > 1000")
    case True
    then obtain items where "retry_loop (safe_extract_characters fuel client) [] ?tr1 (take 3 (chunk_text t 1000)) = Some (items, tr')"
      using Suc.prems by (auto split: option.splits)
    moreover have "\<exists>evs. tr2 = tr1 @ evs \<and> Sleep 60 \<notin> set evs"
      if "safe_extract_characters fuel client tr1 c = Some (r1, tr2)" for tr1 c r1 tr2
      using that by (rule Suc.IH)
    ultimately obtain evs where "tr' = ?tr1 @ evs" "Sleep 60 \<notin> set evs"
      using retry_loop_no_cooldown[of "safe_extract_characters fuel client" "[]" ?tr1 "take 3 (chunk_text t 1000)" _ tr']
      by blast
    then show ?thesis by (intro exI[of _ "Call (Extract CharacterK t) # evs"]) simp
  next
    case False
    then have "tr' = ?tr1"
      using Suc.prems by (auto split: sum.splits py_exception.splits if_splits)
    then show ?thesis by simp
  qed
qed

lemma safe_extract_emotions_no_cooldown:
  "safe_extract_emotions fuel client tr t = Some (r, tr') \<Longrightarrow> \<exists>evs. tr' = tr @ evs \<and> Sleep 60 \<notin> set evs"
proof (induction fuel arbitrary: tr t r tr')
  case 0
  then show ?case by simp
next
  case (Suc fuel)
  let ?tr1 = "tr @ [Call (Extract EmotionK t)]"
  show ?case
  proof (cases "\<exists>msg. try_extract make_emotion client tr (Extract EmotionK t) = Inl (JSONDecodeError msg) \<and> length t > 1000")
    case True
    then obtain items where "retry_loop (safe_extract_emotions fuel client) [] ?tr1 (take 3 (chunk_text t 1000)) = Some (items, tr')"
      using Suc.prems by (auto split: option.splits)
    moreover have "\<exists>evs. tr2 = tr1 @ evs \<and> Sleep 60 \<notin> set evs"
      if "safe_extract_emotions fuel client tr1 c = Some (r1, tr2)" for tr1 c r1 tr2
      using that by (rule Suc.IH)
    ultimately obtain evs where "tr' = ?tr1 @ evs" "Sleep 60 \<notin> set evs"
      using retry_loop_no_cooldown[of "safe_extract_emotions fuel client" "[]" ?tr1 "take 3 (chunk_text t 1000)" _ tr']
      by blast
    then show ?thesis by (intro exI[of _ "Call (Extract EmotionK t) # evs"]) simp
  next
    case False
    then have "tr' = ?tr1"
      using Suc.prems by (auto split: sum.splits py_exception.splits if_splits)
    then show ?thesis by simp
  qed
qed

lemma safe_extract_relationships_no_cooldown:
  "safe_extract_relationships fuel client tr t = Some (r, tr') \<Longrightarrow> \<exists>evs. tr' = tr @ evs \<and> Sleep 60 \<notin> set evs"
proof (induction fuel arbitrary: tr t r tr')
  case 0
  then show ?case by simp
next
  case (Suc fuel)
  let ?tr1 = "tr @ [Call (Extract RelationshipK t)]"
  show ?case
  proof (cases "\<exists>msg. try_extract make_relationship client tr (Extract RelationshipK t) = Inl (JSONDecodeError msg) \<and> length t > 1000")
    case True
    then obtain items where "retry_loop (safe_extract_relationships fuel client) [] ?tr1 (take 3 (chunk_text t 1000)) = Some (items, tr')"
      using Suc.prems by (auto split: option.splits)
    moreover have "\<exists>evs. tr2 = tr1 @ evs \<and> Sleep 60 \<notin> set evs"
      if "safe_extract_relationships fuel client tr1 c = Some (r1, tr2)" for tr1 c r1 tr2
      using that by (rule Suc.IH)
    ultimately obtain evs where "tr' = ?tr1 @ evs" "Sleep 60 \<notin> set evs"
      using retry_loop_no_cooldown[of "safe_extract_relationships fuel client" "[]" ?tr1 "take 3 (chunk_text t 1000)" _ tr']
      by blast
    then show ?thesis by (intro exI[of _ "Call (Extract RelationshipK t) # evs"]) simp
  next
    case False
    then have "tr' = ?tr1"
      using Suc.prems by (auto split: sum.splits py_exception.splits if_splits)
    then show ?thesis by simp
  qed
qed

lemma safe_extract_results_no_cooldown:
  assumes "safe_extract_results fuel client tr t = Some (r, tr')"
  shows "\<exists>evs. tr' = tr @ evs \<and> Sleep 60 \<notin> set evs"
proof -
  from assms obtain cs tr1 where c: "safe_extract_characters fuel client tr t = Some (cs, tr1)"
    by (auto simp: safe_extract_results_def split: option.splits)
  obtain cs' where cs: "cs = Inr cs'"
    using c safe_extract_characters_never_raises[of fuel client tr t] by (cases cs) auto
  from assms c cs obtain es tr2 where e: "safe_extract_emotions fuel client tr1 t = Some (es, tr2)"
    by (auto simp: safe_extract_results_def split: option.splits)
  obtain es' where es: "es = Inr es'"
    using e safe_extract_emotions_never_raises[of fuel client tr1 t] by (cases es) auto
  from assms c cs e es obtain rs where r: "safe_extract_relationships fuel client tr2 t = Some (rs, tr')"
    by (auto simp: safe_extract_results_def split: option.splits sum.splits)
  from safe_extract_characters_no_cooldown[OF c] obtain e1 where 1: "tr1 = tr @ e1" "Sleep 60 \<notin> set e1" by blast
  from safe_extract_emotions_no_cooldown[OF e] obtain e2 where 2: "tr2 = tr1 @ e2" "Sleep 60 \<notin> set e2" by blast
  from safe_extract_relationships_no_cooldown[OF r] obtain e3 where 3: "tr' = tr2 @ e3" "Sleep 60 \<notin> set e3" by blast
  show ?thesis using 1 2 3 by (intro exI[of _ "e1 @ e2 @ e3"]) simp
qed

lemma process_chunks_no_cooldown:
  "process_chunks fuel client n acc tr i chunks = Some (acc', tr') \<Longrightarrow>
   \<exists>evs. tr' = tr @ evs \<and> Sleep 60 \<notin> set evs"
proof (induction chunks arbitrary: acc tr i)
  case Nil
  then show ?case by simp
next
  case (Cons c rest)
  then obtain r tr1 where s: "safe_extract_results fuel client tr c = Some (r, tr1)"
    by (cases "safe_extract_results fuel client tr c") auto
  obtain res where r: "r = Inr res"
    using s safe_extract_results_never_raises[of fuel client tr c] by (cases r) auto
  from safe_extract_results_no_cooldown[OF s] obtain e1 where 1: "tr1 = tr @ e1" "Sleep 60 \<notin> set e1" by blast
  let ?tr2 = "if i < n then tr1 @ [Sleep 2] else tr1"
  have "process_chunks fuel client n (extend_results acc res) ?tr2 (Suc i) rest = Some (acc', tr')"
    using Cons.prems s r by simp
  from Cons.IH[OF this] obtain e2 where 2: "tr' = ?tr2 @ e2" "Sleep 60 \<notin> set e2" by blast
  show ?case
  proof (cases "i < n")
    case True
    then show ?thesis using 1 2 by (intro exI[of _ "e1 @ Sleep 2 # e2"]) simp
  next
    case False
    then show ?thesis using 1 2 by (intro exI[of _ "e1 @ e2"]) simp
  qed
qed

lemma scaling_results_no_cooldown:
  "\<exists>evs. snd (scaling_results client tr t passes workers buffer) = tr @ evs \<and> Sleep 60 \<notin> set evs"
  by (auto simp: scaling_results_def extract_with_scaling_def Let_def split: sum.splits)

lemma extract_all_unscaled_no_cooldown:
  assumes "extract_all_unscaled lower fuel client tr t max_chunk_size = Some (r, tr')"
  shows "\<exists>evs. tr' = tr @ evs \<and> Sleep 60 \<notin> set evs"
proof (cases "max_chunk_size < int (length t)")
  case True
  then obtain acc where "process_chunks fuel client (length (chunk_text t max_chunk_size))
      \<lparr>characters = [], emotions = [], relationships = []\<rparr> tr 1 (chunk_text t max_chunk_size) = Some (acc, tr')"
    using assms by (auto simp: extract_all_unscaled_def chunked_extraction_def Let_def split: option.splits)
  then show ?thesis by (rule process_chunks_no_cooldown)
next
  case False
  then have "safe_extract_results fuel client tr t = Some (r, tr')"
    using assms by (simp add: extract_all_unscaled_def)
  then show ?thesis by (rule safe_extract_results_no_cooldown)
qed

lemma extract_all_no_cooldown:
  assumes "extract_all lower fuel client tr t max_chunk_size use_scaling passes workers buffer = Some (r, tr')"
  shows "\<exists>evs. tr' = tr @ evs \<and> Sleep 60 \<notin> set evs"
proof (cases "use_scaling \<and> max_chunk_size < int (length t)")
  case True
  obtain x tr1 where sc: "scaling_results client tr t passes workers buffer = (x, tr1)"
    by (cases "scaling_results client tr t passes workers buffer")
  obtain e1 where 1: "tr1 = tr @ e1" "Sleep 60 \<notin> set e1"
    using scaling_results_no_cooldown[of client tr t passes workers buffer] sc by auto
  show ?thesis
  proof (cases x)
    case (Inr scaled)
    then have "tr' = tr1" using assms True sc by (simp add: extract_all_def)
    then show ?thesis using 1 by blast
  next
    case (Inl e)
    then have "extract_all_unscaled lower fuel client tr1 t max_chunk_size = Some (r, tr')"
      using assms True sc by (simp add: extract_all_def)
    from extract_all_unscaled_no_cooldown[OF this] obtain e2 where "tr' = tr1 @ e2" "Sleep 60 \<notin> set e2"
      by blast
    then show ?thesis using 1 by (intro exI[of _ "e1 @ e2"]) simp
  qed
next
  case False
  then have "extract_all_unscaled lower fuel client tr t max_chunk_size = Some (r, tr')"
    using assms by (auto simp: extract_all_def)
  then show ?thesis by (rule extract_all_unscaled_no_cooldown)
qed


lemma chunk_text_two_sentences: "chunk_text [97, 12290, 98] 1 = [[97, 12290], [98, 12290]]"
  by (simp add: chunk_text_def is_sentence_end_def py_strip_def py_isspace_def terminator_def)

text \<open>
  Claim C1 at a text of two chunks, in chunked mode, with a client that answers the first
  call on each chunk with a rate-limit error and every later call on that chunk with one
  element. The first call on a chunk is the character extraction: its error is caught
  inside the safe extraction method, which returns the empty list. The run goes on with
  the emotions and relationships of the chunk; it never waits 60 seconds and never asks
  for the characters of a chunk a second time, so the result has no character although
  the client would deliver one for each chunk.
\<close>

theorem rate_limit_error_is_swallowed:
  "is_rate_limit (OtherException ''429 RESOURCE_EXHAUSTED'') \<and>
   extract_all lower (Suc fuel) rate_limited_first_call [] [97, 12290, 98] 1 False 2 10 1000 =
     Some (Inr \<lparr>characters = [],
                emotions = [make_emotion example_extraction, make_emotion example_extraction],
                relationships = [make_relationship example_extraction]\<rparr>,
           [Call (Extract CharacterK [97, 12290]), Call (Extract EmotionK [97, 12290]),
            Call (Extract RelationshipK [97, 12290]), Sleep 2,
            Call (Extract CharacterK [98, 12290]), Call (Extract EmotionK [98, 12290]),
            Call (Extract RelationshipK [98, 12290])])"
proof -
  have "is_rate_limit (OtherException ''429 RESOURCE_EXHAUSTED'')"
    by (simp add: is_rate_limit_def)
  moreover have p: "process_chunks (Suc fuel) rate_limited_first_call (Suc (Suc 0))
      \<lparr>characters = [], emotions = [], relationships = []\<rparr> [] (Suc 0) [[97, 12290], [98, 12290]] =
     Some (\<lparr>characters = [],
            emotions = [make_emotion example_extraction, make_emotion example_extraction],
            relationships = [make_relationship example_extraction, make_relationship example_extraction]\<rparr>,
           [Call (Extract CharacterK [97, 12290]), Call (Extract EmotionK [97, 12290]),
            Call (Extract RelationshipK [97, 12290]), Sleep 2,
            Call (Extract CharacterK [98, 12290]), Call (Extract EmotionK [98, 12290]),
            Call (Extract RelationshipK [98, 12290])])"
    by (simp add: safe_extract_results_def rate_limited_first_call_def extend_results_def
        try_extract_def build_records_example)
  moreover have "deduplicate_relationships
      [make_relationship example_extraction, make_relationship example_extraction] =
      [make_relationship example_extraction]"
    by (simp add: deduplicate_relationships_def)
  ultimately show ?thesis
    by (simp add: extract_all_def extract_all_unscaled_def chunked_extraction_def chunk_text_two_sentences
        deduplicate_characters_def del: process_chunks.simps)
qed

text \<open>
  A safe extraction method makes one call when the text has at most 1000 characters or
  the call does not raise a JSON decode error.
\<close>

lemma safe_extract_characters_single_call:
  assumes "length t \<le> 1000 \<or> (\<forall>msg. client tr (Extract CharacterK t) \<noteq> Raises (JSONDecodeError msg))"
  shows "\<exists>items. safe_extract_characters (Suc fuel) client tr t = Some (Inr items, tr @ [Call (Extract CharacterK t)])"
  using assms by (auto simp: try_extract_json_iff split: sum.splits py_exception.splits)

lemma safe_extract_emotions_single_call:
  assumes "length t \<le> 1000 \<or> (\<forall>msg. client tr (Extract EmotionK t) \<noteq> Raises (JSONDecodeError msg))"
  shows "\<exists>items. safe_extract_emotions (Suc fuel) client tr t = Some (Inr items, tr @ [Call (Extract EmotionK t)])"
  using assms by (auto simp: try_extract_json_iff split: sum.splits py_exception.splits)

lemma safe_extract_relationships_single_call:
  assumes "length t \<le> 1000 \<or> (\<forall>msg. client tr (Extract RelationshipK t) \<noteq> Raises (JSONDecodeError msg))"
  shows "\<exists>items. safe_extract_relationships (Suc fuel) client tr t = Some (Inr items, tr @ [Call (Extract RelationshipK t)])"
  using assms by (auto simp: try_extract_json_iff split: sum.splits py_exception.splits)

text \<open>
  A scaling invocation succeeds exactly when the client returns a list of extractions
  that all carry an attribute dictionary; in every other case it raises, after the call.
\<close>

lemma build_loop_Inr_attributed:
  "build_loop build items elements = Inr r \<Longrightarrow> \<exists>es. elements = map Attributed es"
proof (induction build items elements rule: build_loop.induct)
  case (1 build items)
  then show ?case by simp
next
  case (2 build items e rest)
  then obtain es where "rest = map Attributed es" by auto
  then have "Attributed e # rest = map Attributed (e # es)" by simp
  then show ?case by (rule exI)
next
  case (3 build items span rest)
  then show ?case by simp
qed

lemma build_records_Inr_iff:
  "build_records build extractions = Inr items \<longleftrightarrow>
   (\<exists>es. extractions = Some (map Attributed es) \<and> items = map build es)"
proof
  assume a: "build_records build extractions = Inr items"
  then obtain elements where e: "extractions = Some elements" "build_loop build [] elements = Inr items"
    by (cases extractions) (auto simp: build_records_def)
  from build_loop_Inr_attributed[OF e(2)] obtain es where "elements = map Attributed es" by blast
  then show "\<exists>es. extractions = Some (map Attributed es) \<and> items = map build es"
    using e by (auto simp: build_loop_attributed)
next
  assume "\<exists>es. extractions = Some (map Attributed es) \<and> items = map build es"
  then show "build_records build extractions = Inr items"
    by (auto simp: build_records_def build_loop_attributed)
qed

lemma try_extract_attributed:
  "client tr request = Returns (Some (map Attributed es)) \<Longrightarrow>
   try_extract build client tr request = Inr (map build es)"
  by (simp add: try_extract_def build_records_def build_loop_attributed)

lemma try_extract_fails:
  assumes "\<forall>es. client tr request \<noteq> Returns (Some (map Attributed es))"
  shows "\<exists>e. try_extract build client tr request = Inl e"
proof (cases "try_extract build client tr request")
  case (Inl e)
  then show ?thesis by blast
next
  case (Inr r)
  then obtain elements where c: "client tr request = Returns (Some elements)"
      and b: "build_loop build [] elements = Inr r"
    by (auto simp: try_extract_def build_records_def split: outcome.splits option.splits)
  from build_loop_Inr_attributed[OF b] c assms show ?thesis by blast
qed

lemma extract_with_scaling_attributed:
  "client tr (ExtractScaling k t p w b) = Returns (Some (map Attributed es)) \<Longrightarrow>
   extract_with_scaling build client tr t k p w b = (Inr (map build es), tr @ [Call (ExtractScaling k t p w b)])"
  by (simp add: extract_with_scaling_def try_extract_attributed)

lemma extract_with_scaling_fails:
  assumes "\<forall>es. client tr (ExtractScaling k t p w b) \<noteq> Returns (Some (map Attributed es))"
  shows "\<exists>e. extract_with_scaling build client tr t k p w b = (Inl e, tr @ [Call (ExtractScaling k t p w b)])"
  using assms try_extract_fails[of client tr "ExtractScaling k t p w b" build]
  by (auto simp: extract_with_scaling_def)

lemma scaling_results_first_call:
  "\<exists>evs. snd (scaling_results client tr t passes workers buffer) =
           tr @ Call (ExtractScaling CharacterK t passes workers buffer) # evs"
  by (auto simp: scaling_results_def extract_with_scaling_def Let_def split: sum.splits)

lemma extract_all_scaled:
  assumes "max_chunk_size < int (length t) \<and> use_scaling"
  shows "extract_all lower fuel client tr t max_chunk_size use_scaling passes workers buffer =
        (case scaling_results client tr t passes workers buffer of
           (Inr scaled, tr1) \<Rightarrow> Some (Inr scaled, tr1)
         | (Inl e, tr1) \<Rightarrow> chunked_extraction lower fuel client tr1 t max_chunk_size)"
  using assms by (simp add: extract_all_def extract_all_unscaled_def split: prod.splits sum.splits)

text \<open>
  Claim C6, as amended. For a text no longer than \<open>max_chunk_size\<close>, \<open>extract_all\<close> is the
  three safe extraction methods run once each on the whole text, in the order characters,
  emotions, relationships: each starts from the trace the one before it left, and when
  they return, the result holds their three lists (the last conjunct). Each of these
  methods, from whatever trace it starts, makes
  exactly one call of the client, on the whole text, unless that call raises a JSON decode
  error on a text longer than 1000 characters. For a longer text with scaling enabled,
  the run is that of the three scaling invocations when none of them raises, and chunked
  extraction started after the invocation that raised otherwise; every run that returns
  begins with the scaling call for characters. In terms of the client: when each of the
  three scaling calls returns extractions that all carry an attribute dictionary, the
  result is built from them and the run consists of these three calls; when the first,
  the second or the third scaling call does anything else (it raises, or returns \<open>None\<close>
  or an extraction without attribute dictionary), chunked extraction starts after that
  call.
\<close>

theorem extract_all_routing:
  "(let sc = ExtractScaling CharacterK text passes workers buffer;
        se = ExtractScaling EmotionK text passes workers buffer;
        sr = ExtractScaling RelationshipK text passes workers buffer;
        run = extract_all lower fuel client tr text max_chunk_size use_scaling passes workers buffer
    in
   (int (length text) \<le> max_chunk_size \<longrightarrow> run = safe_extract_results fuel client tr text) \<and>
   (length text \<le> 1000 \<or> (\<forall>msg. client tr' (Extract CharacterK text) \<noteq> Raises (JSONDecodeError msg)) \<longrightarrow>
      (\<exists>items. safe_extract_characters (Suc fuel) client tr' text =
         Some (Inr items, tr' @ [Call (Extract CharacterK text)]))) \<and>
   (length text \<le> 1000 \<or> (\<forall>msg. client tr' (Extract EmotionK text) \<noteq> Raises (JSONDecodeError msg)) \<longrightarrow>
      (\<exists>items. safe_extract_emotions (Suc fuel) client tr' text =
         Some (Inr items, tr' @ [Call (Extract EmotionK text)]))) \<and>
   (length text \<le> 1000 \<or> (\<forall>msg. client tr' (Extract RelationshipK text) \<noteq> Raises (JSONDecodeError msg)) \<longrightarrow>
      (\<exists>items. safe_extract_relationships (Suc fuel) client tr' text =
         Some (Inr items, tr' @ [Call (Extract RelationshipK text)]))) \<and>
   (max_chunk_size < int (length text) \<and> use_scaling \<longrightarrow>
      run = (case scaling_results client tr text passes workers buffer of
               (Inr scaled, tr1) \<Rightarrow> Some (Inr scaled, tr1)
             | (Inl e, tr1) \<Rightarrow> chunked_extraction lower fuel client tr1 text max_chunk_size) \<and>
      (\<forall>r tr2. run = Some (r, tr2) \<longrightarrow> (\<exists>evs. tr2 = tr @ Call sc # evs))) \<and>
   (max_chunk_size < int (length text) \<and> use_scaling \<and>
    client tr sc = Returns (Some (map Attributed xs)) \<and>
    client (tr @ [Call sc]) se = Returns (Some (map Attributed ys)) \<and>
    client (tr @ [Call sc, Call se]) sr = Returns (Some (map Attributed zs)) \<longrightarrow>
      run = Some (Inr \<lparr>characters = map make_character xs, emotions = map make_emotion ys,
                       relationships = map make_relationship zs\<rparr>,
                  tr @ [Call sc, Call se, Call sr])) \<and>
   (max_chunk_size < int (length text) \<and> use_scaling \<and>
    (\<forall>es. client tr sc \<noteq> Returns (Some (map Attributed es))) \<longrightarrow>
      run = chunked_extraction lower fuel client (tr @ [Call sc]) text max_chunk_size) \<and>
   (max_chunk_size < int (length text) \<and> use_scaling \<and>
    client tr sc = Returns (Some (map Attributed xs)) \<and>
    (\<forall>es. client (tr @ [Call sc]) se \<noteq> Returns (Some (map Attributed es))) \<longrightarrow>
      run = chunked_extraction lower fuel client (tr @ [Call sc, Call se]) text max_chunk_size) \<and>
   (max_chunk_size < int (length text) \<and> use_scaling \<and>
    client tr sc = Returns (Some (map Attributed xs)) \<and>
    client (tr @ [Call sc]) se = Returns (Some (map Attributed ys)) \<and>
    (\<forall>es. client (tr @ [Call sc, Call se]) sr \<noteq> Returns (Some (map Attributed es))) \<longrightarrow>
      run = chunked_extraction lower fuel client (tr @ [Call sc, Call se, Call sr]) text max_chunk_size) \<and>
   (int (length text) \<le> max_chunk_size \<and>
    safe_extract_characters fuel client tr text = Some (Inr cs, tra) \<and>
    safe_extract_emotions fuel client tra text = Some (Inr ems, trb) \<and>
    safe_extract_relationships fuel client trb text = Some (Inr rls, trc) \<longrightarrow>
      run = Some (Inr \<lparr>characters = cs, emotions = ems, relationships = rls\<rparr>, trc)))"
proof -
  define sc where "sc = ExtractScaling CharacterK text passes workers buffer"
  define se where "se = ExtractScaling EmotionK text passes workers buffer"
  define sr where "sr = ExtractScaling RelationshipK text passes workers buffer"
  define run where "run = extract_all lower fuel client tr text max_chunk_size use_scaling passes workers buffer"
  have c1: "run = safe_extract_results fuel client tr text" if "int (length text) \<le> max_chunk_size"
    using that by (simp add: run_def extract_all_def extract_all_unscaled_def)
  have scaled: "run = (case scaling_results client tr text passes workers buffer of
               (Inr scaled, tr1) \<Rightarrow> Some (Inr scaled, tr1)
             | (Inl e, tr1) \<Rightarrow> chunked_extraction lower fuel client tr1 text max_chunk_size)"
    if "max_chunk_size < int (length text) \<and> use_scaling"
    unfolding run_def using that by (rule extract_all_scaled)
  have first: "\<exists>evs. tr2 = tr @ Call sc # evs"
    if a: "max_chunk_size < int (length text) \<and> use_scaling" and r: "run = Some (r, tr2)" for r tr2
  proof -
    obtain x tr1 where s: "scaling_results client tr text passes workers buffer = (x, tr1)"
      by (cases "scaling_results client tr text passes workers buffer")
    obtain evs where e: "tr1 = tr @ Call sc # evs"
      using scaling_results_first_call[of client tr "text" passes workers buffer] s by (auto simp: sc_def)
    show ?thesis
    proof (cases x)
      case (Inr scaled)
      then have "tr2 = tr1" using scaled[OF a] s r by simp
      then show ?thesis using e by blast
    next
      case (Inl ex)
      then have "extract_all_unscaled lower fuel client tr1 text max_chunk_size = Some (r, tr2)"
        using scaled[OF a] s r a by (simp add: extract_all_unscaled_def)
      from extract_all_unscaled_no_cooldown[OF this] obtain evs2 where "tr2 = tr1 @ evs2" by blast
      then show ?thesis using e by (intro exI[of _ "evs @ evs2"]) simp
    qed
  qed
  have all3: "run = Some (Inr \<lparr>characters = map make_character xs, emotions = map make_emotion ys,
                       relationships = map make_relationship zs\<rparr>,
                  tr @ [Call sc, Call se, Call sr])"
    if "max_chunk_size < int (length text) \<and> use_scaling \<and>
        client tr sc = Returns (Some (map Attributed xs)) \<and>
        client (tr @ [Call sc]) se = Returns (Some (map Attributed ys)) \<and>
        client (tr @ [Call sc, Call se]) sr = Returns (Some (map Attributed zs))"
  proof -
    have "scaling_results client tr text passes workers buffer =
        (Inr \<lparr>characters = map make_character xs, emotions = map make_emotion ys,
              relationships = map make_relationship zs\<rparr>, tr @ [Call sc, Call se, Call sr])"
      using that unfolding sc_def se_def sr_def
      by (simp add: scaling_results_def extract_with_scaling_attributed)
    then show ?thesis using scaled that by simp
  qed
  have f1: "run = chunked_extraction lower fuel client (tr @ [Call sc]) text max_chunk_size"
    if a: "max_chunk_size < int (length text) \<and> use_scaling \<and>
        (\<forall>es. client tr sc \<noteq> Returns (Some (map Attributed es)))"
  proof -
    obtain e where "extract_with_scaling make_character client tr text CharacterK passes workers buffer =
        (Inl e, tr @ [Call sc])"
      using a extract_with_scaling_fails[of client tr CharacterK "text" passes workers buffer make_character]
      unfolding sc_def by blast
    then have "scaling_results client tr text passes workers buffer = (Inl e, tr @ [Call sc])"
      by (simp add: scaling_results_def)
    then show ?thesis using scaled a by simp
  qed
  have f2: "run = chunked_extraction lower fuel client (tr @ [Call sc, Call se]) text max_chunk_size"
    if a: "max_chunk_size < int (length text) \<and> use_scaling \<and>
        client tr sc = Returns (Some (map Attributed xs)) \<and>
        (\<forall>es. client (tr @ [Call sc]) se \<noteq> Returns (Some (map Attributed es)))"
  proof -
    obtain e where "extract_with_scaling make_emotion client (tr @ [Call sc]) text EmotionK passes workers buffer =
        (Inl e, (tr @ [Call sc]) @ [Call se])"
      using a extract_with_scaling_fails[of client "tr @ [Call sc]" EmotionK "text" passes workers buffer make_emotion]
      unfolding se_def by blast
    then have "scaling_results client tr text passes workers buffer = (Inl e, tr @ [Call sc, Call se])"
      using a unfolding sc_def se_def
      by (simp add: scaling_results_def extract_with_scaling_attributed)
    then show ?thesis using scaled a by simp
  qed
  have f3: "run = chunked_extraction lower fuel client (tr @ [Call sc, Call se, Call sr]) text max_chunk_size"
    if a: "max_chunk_size < int (length text) \<and> use_scaling \<and>
        client tr sc = Returns (Some (map Attributed xs)) \<and>
        client (tr @ [Call sc]) se = Returns (Some (map Attributed ys)) \<and>
        (\<forall>es. client (tr @ [Call sc, Call se]) sr \<noteq> Returns (Some (map Attributed es)))"
  proof -
    obtain e where "extract_with_scaling make_relationship client (tr @ [Call sc, Call se]) text RelationshipK
          passes workers buffer = (Inl e, (tr @ [Call sc, Call se]) @ [Call sr])"
      using a extract_with_scaling_fails[of client "tr @ [Call sc, Call se]" RelationshipK "text" passes workers
          buffer make_relationship]
      unfolding sr_def by blast
    then have "scaling_results client tr text passes workers buffer = (Inl e, tr @ [Call sc, Call se, Call sr])"
      using a unfolding sc_def se_def sr_def
      by (simp add: scaling_results_def extract_with_scaling_attributed)
    then show ?thesis using scaled a by simp
  qed
  have comp: "run = Some (Inr \<lparr>characters = cs, emotions = ems, relationships = rls\<rparr>, trc)"
    if "int (length text) \<le> max_chunk_size \<and>
        safe_extract_characters fuel client tr text = Some (Inr cs, tra) \<and>
        safe_extract_emotions fuel client tra text = Some (Inr ems, trb) \<and>
        safe_extract_relationships fuel client trb text = Some (Inr rls, trc)"
    using that c1 by (simp add: safe_extract_results_def)
  note m1 = safe_extract_characters_single_call[of "text" client tr' fuel]
  note m2 = safe_extract_emotions_single_call[of "text" client tr' fuel]
  note m3 = safe_extract_relationships_single_call[of "text" client tr' fuel]
  show ?thesis
    unfolding Let_def sc_def[symmetric] se_def[symmetric] sr_def[symmetric] run_def[symmetric]
  proof (intro conjI impI allI, goal_cases)
    case 1
    then show ?case by (rule c1)
  next
    case 2
    then show ?case by (rule m1)
  next
    case 3
    then show ?case by (rule m2)
  next
    case 4
    then show ?case by (rule m3)
  next
    case 5
    then show ?case by (rule scaled)
  next
    case (6 r tr2)
    then show ?case by (rule first)
  next
    case 7
    then show ?case by (rule all3)
  next
    case 8
    then show ?case by (rule f1)
  next
    case 9
    then show ?case by (rule f2)
  next
    case 10
    then show ?case by (rule f3)
  next
    case 11
    then show ?case by (rule comp)
  qed
qed


text \<open>
  Claim C6 as stated fails: on the four sentences (2403 characters, below the threshold of
  3000) with a client whose first response is unparseable, the narrowing of the character
  extraction calls the client three more times, on sub-chunks and not on the whole text.
\<close>

theorem extract_all_direct_counterexample:
  "int (length four_sentences) \<le> 3000 \<and>
   extract_all id (Suc (Suc 0)) malformed_first [] four_sentences 3000 True 2 10 1000 =
     Some (Inr \<lparr>characters = [make_character example_extraction, make_character example_extraction,
                               make_character example_extraction],
                emotions = [make_emotion example_extraction],
                relationships = [make_relationship example_extraction]\<rparr>,
           [Call (Extract CharacterK four_sentences),
            Call (Extract CharacterK (replicate 600 97 @ [terminator])),
            Call (Extract CharacterK (replicate 600 98 @ [terminator])),
            Call (Extract CharacterK (replicate 600 99 @ [terminator])),
            Call (Extract EmotionK four_sentences),
            Call (Extract RelationshipK four_sentences)])"
proof -
  have first: "try_extract build malformed_first [] request = Inl (JSONDecodeError ''Expecting value'')"
    for build :: "extraction \<Rightarrow> 'a" and request
    by (simp add: try_extract_def malformed_first_def)
  have later: "try_extract build malformed_first (e # tr) request = Inr [build example_extraction]"
    for build :: "extraction \<Rightarrow> 'a" and e tr request
    by (simp add: try_extract_example malformed_first_def)
  show ?thesis
    by (simp add: extract_all_def extract_all_unscaled_def safe_extract_results_def first later
        length_four_sentences chunk_text_four_sentences)
qed

text \<open>Chunked extraction of a text of two chunks, with a client that answers every plain request.\<close>

lemma chunked_extraction_two_sentences:
  assumes "\<And>tr k u. client tr (Extract k u) = Returns example_result"
  shows "chunked_extraction id (Suc 0) client tr0 [97, 12290, 98] 1 =
      Some (Inr \<lparr>characters = [make_character example_extraction],
                 emotions = [make_emotion example_extraction, make_emotion example_extraction],
                 relationships = [make_relationship example_extraction]\<rparr>,
            tr0 @ [Call (Extract CharacterK [97, 12290]), Call (Extract EmotionK [97, 12290]),
                   Call (Extract RelationshipK [97, 12290]), Sleep 2,
                   Call (Extract CharacterK [98, 12290]), Call (Extract EmotionK [98, 12290]),
                   Call (Extract RelationshipK [98, 12290])])"
proof -
  have t: "try_extract build client tr (Extract k u) = Inr [build example_extraction]"
    for build :: "extraction \<Rightarrow> 'a" and tr k u
    by (simp add: try_extract_example assms)
  show ?thesis
    by (simp add: chunked_extraction_def chunk_text_two_sentences safe_extract_results_def t
        extend_results_def deduplicate_characters_def deduplicate_relationships_def)
qed

text \<open>
  The amended C6 at concrete runs: a short text below the threshold, with a client that
  answers and with one whose first response is unparseable; single calls of the
  methods, one on a short text that fails to parse and two after the character extraction
  of the four sentences; a text above the threshold with a client that answers the
  scaling calls; and the fallback after a scaling call that raises (the first, the second,
  the third) or that returns an extraction without attribute dictionary.
\<close>

theorem extract_all_routing_witness:
  "extract_all id (Suc 0) always_returns [] [97, 12290, 98] 3000 True 2 10 1000 =
     Some (Inr \<lparr>characters = [make_character example_extraction],
                emotions = [make_emotion example_extraction],
                relationships = [make_relationship example_extraction]\<rparr>,
           [Call (Extract CharacterK [97, 12290, 98]), Call (Extract EmotionK [97, 12290, 98]),
            Call (Extract RelationshipK [97, 12290, 98])]) \<and>
   safe_extract_characters (Suc 0) always_malformed [] [97, 12290, 98] =
     Some (Inr [], [Call (Extract CharacterK [97, 12290, 98])]) \<and>
   safe_extract_emotions (Suc 0) malformed_first [Call (Extract CharacterK four_sentences)] four_sentences =
     Some (Inr [make_emotion example_extraction],
           [Call (Extract CharacterK four_sentences), Call (Extract EmotionK four_sentences)]) \<and>
   safe_extract_relationships (Suc 0) malformed_first [Call (Extract CharacterK four_sentences)] four_sentences =
     Some (Inr [make_relationship example_extraction],
           [Call (Extract CharacterK four_sentences), Call (Extract RelationshipK four_sentences)]) \<and>
   extract_all id (Suc 0) always_returns [] [97, 12290, 98] 1 True 2 10 1000 =
     Some (Inr \<lparr>characters = [make_character example_extraction],
                emotions = [make_emotion example_extraction],
                relationships = [make_relationship example_extraction]\<rparr>,
           [Call (ExtractScaling CharacterK [97, 12290, 98] 2 10 1000),
            Call (ExtractScaling EmotionK [97, 12290, 98] 2 10 1000),
            Call (ExtractScaling RelationshipK [97, 12290, 98] 2 10 1000)]) \<and>
   extract_all id (Suc 0) (scaling_fails_from 0) [] [97, 12290, 98] 1 True 2 10 1000 =
     Some (Inr \<lparr>characters = [make_character example_extraction],
                emotions = [make_emotion example_extraction, make_emotion example_extraction],
                relationships = [make_relationship example_extraction]\<rparr>,
           [Call (ExtractScaling CharacterK [97, 12290, 98] 2 10 1000),
            Call (Extract CharacterK [97, 12290]), Call (Extract EmotionK [97, 12290]),
            Call (Extract RelationshipK [97, 12290]), Sleep 2,
            Call (Extract CharacterK [98, 12290]), Call (Extract EmotionK [98, 12290]),
            Call (Extract RelationshipK [98, 12290])]) \<and>
   extract_all id (Suc 0) scaling_unattributed [] [97, 12290, 98] 1 True 2 10 1000 =
     Some (Inr \<lparr>characters = [make_character example_extraction],
                emotions = [make_emotion example_extraction, make_emotion example_extraction],
                relationships = [make_relationship example_extraction]\<rparr>,
           [Call (ExtractScaling CharacterK [97, 12290, 98] 2 10 1000),
            Call (Extract CharacterK [97, 12290]), Call (Extract EmotionK [97, 12290]),
            Call (Extract RelationshipK [97, 12290]), Sleep 2,
            Call (Extract CharacterK [98, 12290]), Call (Extract EmotionK [98, 12290]),
            Call (Extract RelationshipK [98, 12290])]) \<and>
   extract_all id (Suc 0) (scaling_fails_from 1) [] [97, 12290, 98] 1 True 2 10 1000 =
     Some (Inr \<lparr>characters = [make_character example_extraction],
                emotions = [make_emotion example_extraction, make_emotion example_extraction],
                relationships = [make_relationship example_extraction]\<rparr>,
           [Call (ExtractScaling CharacterK [97, 12290, 98] 2 10 1000),
            Call (ExtractScaling EmotionK [97, 12290, 98] 2 10 1000),
            Call (Extract CharacterK [97, 12290]), Call (Extract EmotionK [97, 12290]),
            Call (Extract RelationshipK [97, 12290]), Sleep 2,
            Call (Extract CharacterK [98, 12290]), Call (Extract EmotionK [98, 12290]),
            Call (Extract RelationshipK [98, 12290])]) \<and>
   extract_all id (Suc 0) (scaling_fails_from 2) [] [97, 12290, 98] 1 True 2 10 1000 =
     Some (Inr \<lparr>characters = [make_character example_extraction],
                emotions = [make_emotion example_extraction, make_emotion example_extraction],
                relationships = [make_relationship example_extraction]\<rparr>,
           [Call (ExtractScaling CharacterK [97, 12290, 98] 2 10 1000),
            Call (ExtractScaling EmotionK [97, 12290, 98] 2 10 1000),
            Call (ExtractScaling RelationshipK [97, 12290, 98] 2 10 1000),
            Call (Extract CharacterK [97, 12290]), Call (Extract EmotionK [97, 12290]),
            Call (Extract RelationshipK [97, 12290]), Sleep 2,
            Call (Extract CharacterK [98, 12290]), Call (Extract EmotionK [98, 12290]),
            Call (Extract RelationshipK [98, 12290])]) \<and>
   extract_all id (Suc 0) malformed_first [] [97, 12290, 98] 3000 True 2 10 1000 =
     Some (Inr \<lparr>characters = [],
                emotions = [make_emotion example_extraction],
                relationships = [make_relationship example_extraction]\<rparr>,
           [Call (Extract CharacterK [97, 12290, 98]), Call (Extract EmotionK [97, 12290, 98]),
            Call (Extract RelationshipK [97, 12290, 98])])"
proof -
  let ?t = "[97, 12290, 98] :: pystr"
  let ?sc = "ExtractScaling CharacterK ?t 2 10 1000"
  let ?se = "ExtractScaling EmotionK ?t 2 10 1000"
  let ?sr = "ExtractScaling RelationshipK ?t 2 10 1000"
  let ?one = "[example_extraction]"
  let ?after = "[Call (Extract CharacterK four_sentences)]"
  have unattr: "[Unattributed s] \<noteq> map Attributed es" for s es
    by (cases es) auto
  have plain0: "\<And>tr k u. scaling_fails_from n tr (Extract k u) = Returns example_result" for n
    by (simp add: scaling_fails_from_def)
  have plainu: "\<And>tr k u. scaling_unattributed tr (Extract k u) = Returns example_result"
    by (simp add: scaling_unattributed_def)
  note direct = extract_all_routing[where lower = id and fuel = "Suc 0" and client = always_returns
      and tr = "[]" and max_chunk_size = 3000 and use_scaling = True and passes = 2 and workers = 10
      and buffer = 1000 and ?text = ?t, unfolded Let_def, THEN conjunct1]
  have w1: "extract_all id (Suc 0) always_returns [] ?t 3000 True 2 10 1000 =
      safe_extract_results (Suc 0) always_returns [] ?t"
    using direct by simp
  have v1: "safe_extract_results (Suc 0) always_returns [] ?t =
      Some (Inr \<lparr>characters = [make_character example_extraction],
                 emotions = [make_emotion example_extraction],
                 relationships = [make_relationship example_extraction]\<rparr>,
            [Call (Extract CharacterK ?t), Call (Extract EmotionK ?t), Call (Extract RelationshipK ?t)])"
    by (simp add: safe_extract_results_def try_extract_example always_returns_def)
  note short = extract_all_routing[where fuel = 0 and client = always_malformed and tr' = "[]"
      and ?text = ?t, unfolded Let_def, THEN conjunct2, THEN conjunct1]
  have e2: "\<exists>items. safe_extract_characters (Suc 0) always_malformed [] ?t =
      Some (Inr items, [] @ [Call (Extract CharacterK ?t)])"
    using short by simp
  have v2: "safe_extract_characters (Suc 0) always_malformed [] ?t = Some (Inr [], [Call (Extract CharacterK ?t)])"
    by (simp add: try_extract_always_malformed)
  have nj: "malformed_first ?after request \<noteq> Raises (JSONDecodeError msg)" for request msg
    by (simp add: malformed_first_def)
  have ret: "malformed_first ?after request = Returns example_result" for request
    by (simp add: malformed_first_def)
  note emo = extract_all_routing[where fuel = 0 and client = malformed_first and tr' = ?after
      and ?text = four_sentences, unfolded Let_def, THEN conjunct2, THEN conjunct2, THEN conjunct1]
  have e3: "\<exists>items. safe_extract_emotions (Suc 0) malformed_first ?after four_sentences =
      Some (Inr items, ?after @ [Call (Extract EmotionK four_sentences)])"
    using emo nj by blast
  have v3: "safe_extract_emotions (Suc 0) malformed_first ?after four_sentences =
      Some (Inr [make_emotion example_extraction],
            [Call (Extract CharacterK four_sentences), Call (Extract EmotionK four_sentences)])"
    by (simp add: try_extract_example ret)
  note rel = extract_all_routing[where fuel = 0 and client = malformed_first and tr' = ?after
      and ?text = four_sentences, unfolded Let_def, THEN conjunct2, THEN conjunct2, THEN conjunct2,
      THEN conjunct1]
  have e4: "\<exists>items. safe_extract_relationships (Suc 0) malformed_first ?after four_sentences =
      Some (Inr items, ?after @ [Call (Extract RelationshipK four_sentences)])"
    using rel nj by blast
  have v4: "safe_extract_relationships (Suc 0) malformed_first ?after four_sentences =
      Some (Inr [make_relationship example_extraction],
            [Call (Extract CharacterK four_sentences), Call (Extract RelationshipK four_sentences)])"
    by (simp add: try_extract_example ret)
  note scaled = extract_all_routing[where lower = id and fuel = "Suc 0" and client = always_returns
      and tr = "[]" and max_chunk_size = 1 and use_scaling = True and passes = 2 and workers = 10
      and buffer = 1000 and ?text = ?t and xs = ?one and ys = ?one and zs = ?one, unfolded Let_def,
      THEN conjunct2, THEN conjunct2, THEN conjunct2, THEN conjunct2, THEN conjunct2, THEN conjunct1]
  have w5: "extract_all id (Suc 0) always_returns [] ?t 1 True 2 10 1000 =
      Some (Inr \<lparr>characters = [make_character example_extraction],
                 emotions = [make_emotion example_extraction],
                 relationships = [make_relationship example_extraction]\<rparr>,
            [Call ?sc, Call ?se, Call ?sr])"
    using scaled by (simp add: always_returns_def example_result_def)
  note fail0 = extract_all_routing[where lower = id and fuel = "Suc 0" and client = "scaling_fails_from 0"
      and tr = "[]" and max_chunk_size = 1 and use_scaling = True and passes = 2 and workers = 10
      and buffer = 1000 and ?text = ?t, unfolded Let_def,
      THEN conjunct2, THEN conjunct2, THEN conjunct2, THEN conjunct2, THEN conjunct2, THEN conjunct2,
      THEN conjunct1]
  have w6: "extract_all id (Suc 0) (scaling_fails_from 0) [] ?t 1 True 2 10 1000 =
      chunked_extraction id (Suc 0) (scaling_fails_from 0) [Call ?sc] ?t 1"
    using fail0 by (simp add: scaling_fails_from_def)
  note failu = extract_all_routing[where lower = id and fuel = "Suc 0" and client = scaling_unattributed
      and tr = "[]" and max_chunk_size = 1 and use_scaling = True and passes = 2 and workers = 10
      and buffer = 1000 and ?text = ?t, unfolded Let_def,
      THEN conjunct2, THEN conjunct2, THEN conjunct2, THEN conjunct2, THEN conjunct2, THEN conjunct2,
      THEN conjunct1]
  have w7: "extract_all id (Suc 0) scaling_unattributed [] ?t 1 True 2 10 1000 =
      chunked_extraction id (Suc 0) scaling_unattributed [Call ?sc] ?t 1"
    using failu by (simp add: scaling_unattributed_def unattr)
  note fail1 = extract_all_routing[where lower = id and fuel = "Suc 0" and client = "scaling_fails_from 1"
      and tr = "[]" and max_chunk_size = 1 and use_scaling = True and passes = 2 and workers = 10
      and buffer = 1000 and ?text = ?t and xs = ?one, unfolded Let_def,
      THEN conjunct2, THEN conjunct2, THEN conjunct2, THEN conjunct2, THEN conjunct2, THEN conjunct2,
      THEN conjunct2, THEN conjunct1]
  have w8: "extract_all id (Suc 0) (scaling_fails_from 1) [] ?t 1 True 2 10 1000 =
      chunked_extraction id (Suc 0) (scaling_fails_from 1) [Call ?sc, Call ?se] ?t 1"
    using fail1 by (simp add: scaling_fails_from_def example_result_def)
  note fail2 = extract_all_routing[where lower = id and fuel = "Suc 0" and client = "scaling_fails_from 2"
      and tr = "[]" and max_chunk_size = 1 and use_scaling = True and passes = 2 and workers = 10
      and buffer = 1000 and ?text = ?t and xs = ?one and ys = ?one, unfolded Let_def,
      THEN conjunct2, THEN conjunct2, THEN conjunct2, THEN conjunct2, THEN conjunct2, THEN conjunct2,
      THEN conjunct2, THEN conjunct2, THEN conjunct1]
  have w9: "extract_all id (Suc 0) (scaling_fails_from 2) [] ?t 1 True 2 10 1000 =
      chunked_extraction id (Suc 0) (scaling_fails_from 2) [Call ?sc, Call ?se, Call ?sr] ?t 1"
    using fail2 by (simp add: scaling_fails_from_def example_result_def)
  have c: "chunked_extraction id (Suc 0) (scaling_fails_from n) tr0 ?t 1 =
      Some (Inr \<lparr>characters = [make_character example_extraction],
                 emotions = [make_emotion example_extraction, make_emotion example_extraction],
                 relationships = [make_relationship example_extraction]\<rparr>,
            tr0 @ [Call (Extract CharacterK [97, 12290]), Call (Extract EmotionK [97, 12290]),
                   Call (Extract RelationshipK [97, 12290]), Sleep 2,
                   Call (Extract CharacterK [98, 12290]), Call (Extract EmotionK [98, 12290]),
                   Call (Extract RelationshipK [98, 12290])])" for n tr0
    by (rule chunked_extraction_two_sentences) (rule plain0)
  have cu: "chunked_extraction id (Suc 0) scaling_unattributed tr0 ?t 1 =
      Some (Inr \<lparr>characters = [make_character example_extraction],
                 emotions = [make_emotion example_extraction, make_emotion example_extraction],
                 relationships = [make_relationship example_extraction]\<rparr>,
            tr0 @ [Call (Extract CharacterK [97, 12290]), Call (Extract EmotionK [97, 12290]),
                   Call (Extract RelationshipK [97, 12290]), Sleep 2,
                   Call (Extract CharacterK [98, 12290]), Call (Extract EmotionK [98, 12290]),
                   Call (Extract RelationshipK [98, 12290])])" for tr0
    by (rule chunked_extraction_two_sentences) (rule plainu)
  let ?c = "Call (Extract CharacterK ?t)"
  let ?e = "Call (Extract EmotionK ?t)"
  let ?r = "Call (Extract RelationshipK ?t)"
  have j: "try_extract build malformed_first [] request = Inl (JSONDecodeError ''Expecting value'')"
    for build :: "extraction \<Rightarrow> 'a" and request
    by (simp add: try_extract_def malformed_first_def)
  have k: "try_extract build malformed_first (ev # tr) request = Inr [build example_extraction]"
    for build :: "extraction \<Rightarrow> 'a" and ev tr request
    by (simp add: try_extract_example malformed_first_def)
  have s1: "safe_extract_characters (Suc 0) malformed_first [] ?t = Some (Inr [], [?c])"
    by (simp add: j)
  have s2: "safe_extract_emotions (Suc 0) malformed_first [?c] ?t =
      Some (Inr [make_emotion example_extraction], [?c, ?e])"
    by (simp add: k)
  have s3: "safe_extract_relationships (Suc 0) malformed_first [?c, ?e] ?t =
      Some (Inr [make_relationship example_extraction], [?c, ?e, ?r])"
    by (simp add: k)
  note composed = extract_all_routing[where lower = id and fuel = "Suc 0" and client = malformed_first
      and tr = "[]" and max_chunk_size = 3000 and use_scaling = True and passes = 2 and workers = 10
      and buffer = 1000 and ?text = ?t and cs = "[]" and tra = "[?c]"
      and ems = "[make_emotion example_extraction]" and trb = "[?c, ?e]"
      and rls = "[make_relationship example_extraction]" and trc = "[?c, ?e, ?r]", unfolded Let_def,
      THEN conjunct2, THEN conjunct2, THEN conjunct2, THEN conjunct2, THEN conjunct2, THEN conjunct2,
      THEN conjunct2, THEN conjunct2, THEN conjunct2]
  have w10: "extract_all id (Suc 0) malformed_first [] ?t 3000 True 2 10 1000 =
      Some (Inr \<lparr>characters = [], emotions = [make_emotion example_extraction],
                 relationships = [make_relationship example_extraction]\<rparr>, [?c, ?e, ?r])"
    using composed s1 s2 s3 by simp
  from e2 e3 e4 show ?thesis
    unfolding w1 v1 v2 v3 v4 w5 w6 w7 w8 w9 w10 c cu by simp
qed

end
